theory Spec2Isabelle
  imports Complex_Main
begin

section \<open>The orchestration state machine (sandwich/agent/state\_machine.py)\<close>

text \<open>
  Python values are embedded as follows.  A \<open>str\<close> is a \<open>string\<close>; a \<open>UUID\<close> is the
  natural number it denotes; a \<open>datetime\<close> is a number of clock ticks.  The two values
  the interpreter draws from its environment when a checkpoint is built (\<open>uuid4()\<close> and
  \<open>datetime.now()\<close>) are arguments of the operation that builds it.  A \<open>dict\<close> is an
  association list in insertion order, looked up with \<open>map_of\<close>.  Calls to the logger
  have no influence on any value and are left out.
\<close>

type_synonym UUID = nat
type_synonym datetime = nat

datatype AgentState =
    IDLE
  | FORAGING
  | PREPROCESSING
  | IDENTIFYING
  | SELECTING
  | ASSEMBLING
  | VALIDATING
  | STORING
  | ERROR_RECOVERY
  | SESSION_END

text \<open>The \<open>value\<close> attribute of each member of the enumeration.\<close>

fun state_value :: "AgentState \<Rightarrow> string" where
  "state_value IDLE = ''idle''"
| "state_value FORAGING = ''foraging''"
| "state_value PREPROCESSING = ''preprocessing''"
| "state_value IDENTIFYING = ''identifying''"
| "state_value SELECTING = ''selecting''"
| "state_value ASSEMBLING = ''assembling''"
| "state_value VALIDATING = ''validating''"
| "state_value STORING = ''storing''"
| "state_value ERROR_RECOVERY = ''error_recovery''"
| "state_value SESSION_END = ''session_end''"

text \<open>Legal transitions: current state, then event, then next state.\<close>

definition TRANSITIONS :: "(AgentState \<times> (string \<times> AgentState) list) list" where
  "TRANSITIONS =
    [(IDLE,
        [(''start_foraging'', FORAGING),
         (''end_session'', SESSION_END)]),
     (FORAGING,
        [(''content_found'', PREPROCESSING),
         (''forage_failed'', IDLE),
         (''error'', ERROR_RECOVERY)]),
     (PREPROCESSING,
        [(''content_accepted'', IDENTIFYING),
         (''content_rejected'', IDLE),
         (''error'', ERROR_RECOVERY)]),
     (IDENTIFYING,
        [(''candidates_found'', SELECTING),
         (''no_candidates'', IDLE),
         (''error'', ERROR_RECOVERY)]),
     (SELECTING,
        [(''candidate_selected'', ASSEMBLING),
         (''none_viable'', IDLE),
         (''error'', ERROR_RECOVERY)]),
     (ASSEMBLING,
        [(''assembly_complete'', VALIDATING),
         (''error'', ERROR_RECOVERY)]),
     (VALIDATING,
        [(''accepted'', STORING),
         (''review'', STORING),
         (''rejected'', IDLE),
         (''error'', ERROR_RECOVERY)]),
     (STORING,
        [(''stored'', IDLE),
         (''error'', ERROR_RECOVERY)]),
     (ERROR_RECOVERY,
        [(''recovered'', IDLE),
         (''fatal'', SESSION_END)]),
     (SESSION_END, [])]"

text \<open>\<open>TRANSITIONS.get(state, {})\<close>: the row of a state, the empty dictionary when the
  state has none.\<close>

definition transitions_get :: "AgentState \<Rightarrow> (string \<times> AgentState) list" where
  "transitions_get s = (case map_of TRANSITIONS s of None \<Rightarrow> [] | Some row \<Rightarrow> row)"

text \<open>
  \<open>repr\<close> of a string and of a list of strings, as the f-string of the exception
  renders the keys of a row.  The keys of the table are made of lower-case letters and
  underscores, for which \<open>repr\<close> is the key between single quotes.
\<close>

definition squote :: string where
  "squote = [CHR 0x27]"

definition repr_str :: "string \<Rightarrow> string" where
  "repr_str s = squote @ s @ squote"

fun join_comma :: "string list \<Rightarrow> string" where
  "join_comma [] = []"
| "join_comma [s] = s"
| "join_comma (s # t # ss) = s @ '', '' @ join_comma (t # ss)"

definition repr_str_list :: "string list \<Rightarrow> string" where
  "repr_str_list ks = ''['' @ join_comma (map repr_str ks) @ '']''"

text \<open>
  \<open>InvalidTransitionError\<close>: the two attributes the constructor stores and the
  message it hands to \<open>Exception.__init__\<close>.  (The fields are prefixed: the machine
  has a \<open>current_state\<close> of its own.)
\<close>

record InvalidTransitionError =
  err_current_state :: AgentState
  err_event :: string
  err_message :: string

definition InvalidTransitionError_init :: "AgentState \<Rightarrow> string \<Rightarrow> InvalidTransitionError" where
  "InvalidTransitionError_init current_state event =
     \<lparr> err_current_state = current_state,
       err_event = event,
       err_message =
         ''Invalid transition: '' @ state_value current_state @ '' + '' @ squote @ event @ squote
         @ '' (valid events: '' @ repr_str_list (map fst (transitions_get current_state)) @ '')'' \<rparr>"

text \<open>What a call of the machine can raise: the error of the module, or the
  \<open>KeyError\<close> of a failed subscript \<open>TRANSITIONS[state][event]\<close>.\<close>

datatype sm_error = InvalidTransition InvalidTransitionError | KeyError

text \<open>\<open>StateCheckpoint\<close>; the payload \<open>data\<close> is a dictionary from strings to values
  of any type \<open>'v\<close>.\<close>

record 'v StateCheckpoint =
  checkpoint_id :: UUID
  cp_session_id :: UUID
  state :: AgentState
  timestamp :: datetime
  data :: "(string \<times> 'v) list"
  transition_reason :: string

record 'v StateMachine =
  session_id :: UUID
  current_state :: AgentState
  checkpoints :: "'v StateCheckpoint list"

text \<open>\<open>StateMachine.__init__\<close>: \<open>session_id or uuid4()\<close>; a \<open>UUID\<close> object is always
  true, so the fresh identifier is used exactly when none is given.\<close>

definition StateMachine_init :: "UUID option \<Rightarrow> UUID \<Rightarrow> 'v StateMachine" where
  "StateMachine_init sid fresh =
     \<lparr> session_id = (case sid of None \<Rightarrow> fresh | Some s \<Rightarrow> s),
       current_state = IDLE,
       checkpoints = [] \<rparr>"

definition can_transition :: "'v StateMachine \<Rightarrow> string \<Rightarrow> bool" where
  "can_transition sm event = (map_of (transitions_get (current_state sm)) event \<noteq> None)"

text \<open>
  \<open>StateMachine.transition\<close>.  The result pairs what the call returns or raises with
  the machine as the call leaves it; \<open>cid\<close> and \<open>now\<close> are the identifier and the time
  the new checkpoint receives from its default factories.  \<open>data or {}\<close> is the empty
  dictionary for \<open>None\<close> and for an empty dictionary.
\<close>

definition transition ::
  "'v StateMachine \<Rightarrow> string \<Rightarrow> (string \<times> 'v) list option \<Rightarrow> UUID \<Rightarrow> datetime
     \<Rightarrow> (sm_error + AgentState) \<times> 'v StateMachine" where
  "transition sm event payload cid now =
     (if \<not> can_transition sm event
      then (Inl (InvalidTransition (InvalidTransitionError_init (current_state sm) event)), sm)
      else
        (case map_of TRANSITIONS (current_state sm) of
           None \<Rightarrow> (Inl KeyError, sm)
         | Some row \<Rightarrow>
             (case map_of row event of
                None \<Rightarrow> (Inl KeyError, sm)
              | Some new_state \<Rightarrow>
                  (let old_state = current_state sm;
                       checkpoint =
                         \<lparr> checkpoint_id = cid,
                           cp_session_id = session_id sm,
                           state = new_state,
                           timestamp = now,
                           data = (case payload of None \<Rightarrow> [] | Some d \<Rightarrow> d),
                           transition_reason =
                             state_value old_state @ '' --['' @ event @ '']--> ''
                             @ state_value new_state \<rparr>
                   in (Inr new_state,
                       sm\<lparr> checkpoints := checkpoints sm @ [checkpoint],
                           current_state := new_state \<rparr>)))))"

definition recover_from_checkpoint :: "'v StateMachine \<Rightarrow> 'v StateCheckpoint \<Rightarrow> 'v StateMachine" where
  "recover_from_checkpoint sm checkpoint =
     sm\<lparr> current_state := state checkpoint,
         session_id := cp_session_id checkpoint,
         checkpoints := checkpoints sm @ [checkpoint] \<rparr>"

definition get_latest_checkpoint :: "'v StateMachine \<Rightarrow> 'v StateCheckpoint option" where
  "get_latest_checkpoint sm = (if checkpoints sm \<noteq> [] then Some (last (checkpoints sm)) else None)"

text \<open>
  A caller's session with one machine: a sequence of calls, each a \<open>transition\<close> or a
  \<open>recover_from_checkpoint\<close>.  \<open>run\<close> performs them in order on the machine each call
  leaves behind, and collects what each call returned or raised (a raised error is
  caught by the caller, who goes on with the next call).
\<close>

datatype 'v call =
    Transition string "(string \<times> 'v) list option" UUID datetime
  | Recover "'v StateCheckpoint"

fun is_Transition :: "'v call \<Rightarrow> bool" where
  "is_Transition (Transition _ _ _ _) = True"
| "is_Transition (Recover _) = False"

fun perform :: "'v StateMachine \<Rightarrow> 'v call \<Rightarrow> (sm_error + AgentState option) \<times> 'v StateMachine" where
  "perform sm (Transition event payload cid now) =
     (case transition sm event payload cid now of
        (Inl e, sm') \<Rightarrow> (Inl e, sm')
      | (Inr s, sm') \<Rightarrow> (Inr (Some s), sm'))"
| "perform sm (Recover checkpoint) = (Inr None, recover_from_checkpoint sm checkpoint)"

fun run :: "'v StateMachine \<Rightarrow> 'v call list
     \<Rightarrow> (sm_error + AgentState option) list \<times> 'v StateMachine" where
  "run sm [] = ([], sm)"
| "run sm (c # cs) =
     (case perform sm c of (r, sm') \<Rightarrow> (case run sm' cs of (rs, sm'') \<Rightarrow> (r # rs, sm'')))"

text \<open>The number of calls of a session that returned.\<close>

definition succeeded :: "(sm_error + AgentState option) list \<Rightarrow> nat" where
  "succeeded rs = length (filter (\<lambda>r. \<not> isl r) rs)"

text \<open>
  The invariant of the log that the operations maintain: the latest checkpoint, when
  there is one, records the current state and the session of the machine.
\<close>

definition latest_agrees :: "'v StateMachine \<Rightarrow> bool" where
  "latest_agrees sm =
     (case get_latest_checkpoint sm of
        None \<Rightarrow> True
      | Some c \<Rightarrow> state c = current_state sm \<and> cp_session_id c = session_id sm)"

section \<open>The adaptive forager (sandwich/agent/forager.py, sandwich/sources/base.py)\<close>

text \<open>\<open>SourceResult\<close>, the value a content source returns.\<close>

record SourceResult =
  content :: string
  url :: "string option"
  title :: "string option"
  content_type :: string
  metadata :: "(string \<times> string) list"

text \<open>
  \<open>ContentSource\<close> is an abstract class: a name, a tier and the two coroutines
  \<open>fetch\<close> and \<open>fetch_random\<close>, each of which returns a \<open>SourceResult\<close> or raises.
  What a source answers is up to the source, so the two methods are fields holding
  what the call gives; an exception is the text it carries.  (The optional rate
  limiter of a source is not used by the forager and is left out.)
\<close>

type_synonym exception = string

record ContentSource =
  name :: string
  tier :: int
  fetch :: "string option \<Rightarrow> exception + SourceResult"
  fetch_random :: "exception + SourceResult"

record ForagerConfig =
  max_patience :: int
  tier_1_sources :: "string list"
  tier_2_sources :: "string list"
  tier_3_sources :: "string list"
  successes_to_promote :: int
  failures_to_demote :: int

text \<open>The defaults of the dataclass.\<close>

definition ForagerConfig_default :: ForagerConfig where
  "ForagerConfig_default =
     \<lparr> max_patience = 5,
       tier_1_sources = [''wikipedia''],
       tier_2_sources = [''web_search''],
       tier_3_sources = [],
       successes_to_promote = 5,
       failures_to_demote = 3 \<rparr>"


text \<open>
  The forager.  \<open>sources\<close> is the dictionary from tier to list of sources; \<open>llm\<close> is
  the one capability the forager uses of the language model, \<open>generate_curiosity\<close>.
\<close>

record Forager =
  sources :: "(int \<times> ContentSource list) list"
  llm :: "string list \<Rightarrow> string"
  config :: ForagerConfig
  current_tier :: int
  consecutive_failures :: int
  consecutive_successes :: int

text \<open>\<open>Forager.__init__\<close>: \<open>config or ForagerConfig()\<close>, and the machine starts at
  tier 1 with both streaks at zero.\<close>

definition Forager_init ::
  "(int \<times> ContentSource list) list \<Rightarrow> (string list \<Rightarrow> string) \<Rightarrow> ForagerConfig option \<Rightarrow> Forager" where
  "Forager_init srcs model cfg =
     \<lparr> sources = srcs,
       llm = model,
       config = (case cfg of None \<Rightarrow> ForagerConfig_default | Some c \<Rightarrow> c),
       current_tier = 1,
       consecutive_failures = 0,
       consecutive_successes = 0 \<rparr>"

definition generate_curiosity :: "Forager \<Rightarrow> string list \<Rightarrow> string" where
  "generate_curiosity f recent_topics = llm f recent_topics"

text \<open>
  \<open>Forager._get_tier_sources\<close>: \<open>for tier in range(self.current_tier, 0, -1)\<close>, the
  first tier that is a key of \<open>sources\<close> with a non-empty list; the empty list when the
  loop runs out.
\<close>

function tier_sources_from :: "(int \<times> ContentSource list) list \<Rightarrow> int \<Rightarrow> ContentSource list" where
  "tier_sources_from srcs t =
     (if t \<le> 0 then []
      else (case map_of srcs t of
              Some (s # ss) \<Rightarrow> s # ss
            | _ \<Rightarrow> tier_sources_from srcs (t - 1)))"
  by pat_completeness auto
termination
  by (relation "measure (\<lambda>(srcs, t). nat t)") auto



text \<open>\<open>max(self.sources.keys()) if self.sources else 1\<close>, the local \<open>max_tier\<close> of
  \<open>record_success\<close>.\<close>

definition max_tier :: "(int \<times> ContentSource list) list \<Rightarrow> int" where
  "max_tier srcs = (if srcs \<noteq> [] then Max (set (map fst srcs)) else 1)"

definition record_success :: "Forager \<Rightarrow> Forager" where
  "record_success f =
     (let f1 = f\<lparr> consecutive_failures := 0,
                  consecutive_successes := consecutive_successes f + 1 \<rparr>
      in if successes_to_promote (config f1) \<le> consecutive_successes f1
         then (if current_tier f1 < max_tier (sources f1)
               then f1\<lparr> current_tier := current_tier f1 + 1, consecutive_successes := 0 \<rparr>
               else f1)
         else f1)"

definition record_failure :: "Forager \<Rightarrow> Forager" where
  "record_failure f =
     (let f1 = f\<lparr> consecutive_successes := 0,
                  consecutive_failures := consecutive_failures f + 1 \<rparr>
      in if failures_to_demote (config f1) \<le> consecutive_failures f1
         then (if 1 < current_tier f1
               then f1\<lparr> current_tier := current_tier f1 - 1, consecutive_failures := 0 \<rparr>
               else f1)
         else f1)"

text \<open>A history of outcomes reported to the forager, oldest first, and the forager
  after it.\<close>

datatype outcome = Success | Failure

fun record_outcome :: "Forager \<Rightarrow> outcome \<Rightarrow> Forager" where
  "record_outcome f Success = record_success f"
| "record_outcome f Failure = record_failure f"

definition record_all :: "Forager \<Rightarrow> outcome list \<Rightarrow> Forager" where
  "record_all f os = foldl record_outcome f os"

text \<open>The invariant of the forager: the tier is at least 1 and at most the greater of
  1 and the highest tier that \<open>record_success\<close> can promote to, and at most one streak
  is running.\<close>

definition forager_inv :: "Forager \<Rightarrow> bool" where
  "forager_inv f = (1 \<le> current_tier f \<and> current_tier f \<le> max 1 (max_tier (sources f))
      \<and> \<not> (consecutive_successes f \<noteq> 0 \<and> consecutive_failures f \<noteq> 0))"

section \<open>Values for the concrete instances\<close>

text \<open>A source that is down (both fetches raise), a mapping with three tiers, and a
  forager placed at tier 2 of it with both streaks at zero.\<close>

definition down_source :: ContentSource where
  "down_source =
     \<lparr> name = ''wiki'', tier = 1,
       fetch = (\<lambda>query. Inl ''unreachable''), fetch_random = Inl ''unreachable'' \<rparr>"

definition three_tiers :: "(int \<times> ContentSource list) list" where
  "three_tiers = [(1, [down_source]), (2, [down_source]), (3, [down_source])]"

definition forager_at_two :: "ForagerConfig \<Rightarrow> Forager" where
  "forager_at_two cfg =
     (Forager_init three_tiers (\<lambda>topics. ''owls'') (Some cfg))\<lparr> current_tier := 2 \<rparr>"

section \<open>The error router (sandwich/agent/error\_handler.py)\<close>

text \<open>
  Modelled from the spec: the failure taxonomy, whose module
  \<open>sandwich.errors.exceptions\<close> is not among the sources.  The spec gives every failure
  value a discriminant among fatal, content, parse, retryable and other, and a free-text
  reason.  The router tests membership in the four classes with \<open>isinstance\<close>, in
  order, so a failure carries here the list of the four classes it is an instance of:
  empty for any other \<open>SandwichError\<close>, and possibly several for a class that derives
  from more than one of them.
\<close>

datatype error_class = FatalError | ContentError | ParseError | RetryableError

record SandwichError =
  error_text :: string
  reason :: string
  classes :: "error_class list"

definition isinstance :: "SandwichError \<Rightarrow> error_class \<Rightarrow> bool" where
  "isinstance e c = (c \<in> set (classes e))"

definition determine_recovery_event :: "SandwichError \<Rightarrow> string" where
  "determine_recovery_event e =
     (if isinstance e FatalError then ''fatal''
      else if isinstance e ContentError then ''recovered''
      else if isinstance e ParseError then ''recovered''
      else if isinstance e RetryableError then ''recovered''
      else ''recovered'')"

section \<open>Python floats\<close>

text \<open>
  A \<open>float\<close> is an IEEE 754 binary64 number.  It is modelled by the real number it
  denotes, and every arithmetic operation returns the exact result rounded to the
  nearest binary64 number, ties going to the even significand.  The model covers the
  finite numbers of the normal range: it has no NaN and no infinity, and the exponent is
  not bounded, so nothing overflows or underflows.

  \<open>binade x\<close> is the exponent \<open>e\<close> with \<open>2^e \<le> x < 2^(e+1)\<close> for a positive \<open>x\<close>; the
  spacing of the binary64 numbers there is \<open>2^(e-52)\<close>.
\<close>

type_synonym pyfloat = real

function binade :: "real \<Rightarrow> int" where
  "binade x =
     (if x \<le> 0 then 0
      else if 2 \<le> x then binade (x / 2) + 1
      else if x < 1 then binade (x * 2) - 1
      else 0)"
  by pat_completeness auto
termination
proof (relation "measure (\<lambda>x. nat (2 * \<lceil>1 / x\<rceil> + \<lceil>x\<rceil>))")
  show "wf (measure (\<lambda>x. nat (2 * \<lceil>1 / x\<rceil> + \<lceil>x\<rceil>)))" by simp
next
  fix x :: real
  assume a: "\<not> x \<le> 0" "2 \<le> x"
  have c1: "\<lceil>1 / x\<rceil> = 1" using a by (intro ceiling_unique) (simp_all add: field_simps)
  have c2: "\<lceil>1 / (x / 2)\<rceil> = 1" using a by (intro ceiling_unique) (simp_all add: field_simps)
  have "x / 2 \<le> x - 1" using a by simp
  then have "\<lceil>x / 2\<rceil> \<le> \<lceil>x - 1\<rceil>" by (rule ceiling_mono)
  then have c3: "\<lceil>x / 2\<rceil> < \<lceil>x\<rceil>" by simp
  have "0 < \<lceil>x\<rceil>" using a by simp
  with c1 c2 c3 show "(x / 2, x) \<in> measure (\<lambda>x. nat (2 * \<lceil>1 / x\<rceil> + \<lceil>x\<rceil>))"
    unfolding in_measure by linarith
next
  fix x :: real
  assume a: "\<not> x \<le> 0" "\<not> 2 \<le> x" "x < 1"
  have c1: "\<lceil>x\<rceil> = 1" using a by (intro ceiling_unique) simp_all
  have c2: "\<lceil>x * 2\<rceil> \<le> 2" using a by (simp add: ceiling_le_iff)
  have y: "1 < 1 / x" using a by simp
  have c3: "\<lceil>1 / (x * 2)\<rceil> < \<lceil>1 / x\<rceil>"
  proof (cases "2 \<le> 1 / x")
    case True
    have "1 / (x * 2) \<le> 1 / x - 1" using True a by (simp add: field_simps)
    then have "\<lceil>1 / (x * 2)\<rceil> \<le> \<lceil>1 / x - 1\<rceil>" by (rule ceiling_mono)
    then show ?thesis by simp
  next
    case False
    then have "\<lceil>1 / x\<rceil> = 2" using y by (intro ceiling_unique) simp_all
    moreover have "\<lceil>1 / (x * 2)\<rceil> = 1" using False y a
      by (intro ceiling_unique) (simp_all add: field_simps)
    ultimately show ?thesis by simp
  qed
  have "0 < \<lceil>1 / x\<rceil>" using y a by simp
  with c1 c2 c3 show "(x * 2, x) \<in> measure (\<lambda>x. nat (2 * \<lceil>1 / x\<rceil> + \<lceil>x\<rceil>))"
    unfolding in_measure by linarith
qed

declare binade.simps [simp del]

definition pow2 :: "int \<Rightarrow> real" where
  "pow2 e = (if 0 \<le> e then 2 ^ nat e else 1 / 2 ^ nat (- e))"

definition round_half_even :: "real \<Rightarrow> int" where
  "round_half_even m =
     (let n = \<lfloor>m\<rfloor>; r = m - of_int n
      in if r < 1 / 2 then n
         else if 1 / 2 < r then n + 1
         else if even n then n else n + 1)"

text \<open>\<open>fl\<close> rounds a real number to binary64; a decimal literal of the source denotes
  \<open>fl\<close> of its value.\<close>

definition fl :: "real \<Rightarrow> pyfloat" where
  "fl x =
     (if x = 0 then 0
      else (let ulp = pow2 (binade \<bar>x\<bar> - 52)
            in sgn x * (of_int (round_half_even (\<bar>x\<bar> / ulp)) * ulp)))"

definition fadd :: "pyfloat \<Rightarrow> pyfloat \<Rightarrow> pyfloat" where
  "fadd x y = fl (x + y)"

definition fsub :: "pyfloat \<Rightarrow> pyfloat \<Rightarrow> pyfloat" where
  "fsub x y = fl (x - y)"

definition fmul :: "pyfloat \<Rightarrow> pyfloat \<Rightarrow> pyfloat" where
  "fmul x y = fl (x * y)"

definition fdiv :: "pyfloat \<Rightarrow> pyfloat \<Rightarrow> pyfloat" where
  "fdiv x y = fl (x / y)"

text \<open>\<open>x ** 0.5\<close>, taken as the correctly rounded square root; the \<open>pow\<close> of the C
  library that CPython calls may differ from it in the last place.  Only the cosine
  similarity uses it.\<close>

definition fpow_half :: "pyfloat \<Rightarrow> pyfloat" where
  "fpow_half x = fl (sqrt x)"

text \<open>\<open>sum\<close> of floats: the additions in order, each rounded, from the integer 0.
  (CPython from 3.12 on also carries a compensation term through the sum; only the
  cosine similarity uses \<open>sum\<close>.)\<close>

definition fsum :: "pyfloat list \<Rightarrow> pyfloat" where
  "fsum xs = foldl fadd 0 xs"

section \<open>The candidate selector (sandwich/agent/selector.py)\<close>

text \<open>
  Modelled from the spec: \<open>CandidateStructure\<close>, whose module
  \<open>sandwich.agent.identifier\<close> is not among the sources.  The spec gives a candidate a
  bread-top text, a bread-bottom text, a filler text, a structure-type tag, a confidence
  in \<open>[0,1]\<close> and a rationale string; the field names are those the selector and the
  tests use.
\<close>

record CandidateStructure =
  bread_top :: string
  bread_bottom :: string
  filling :: string
  structure_type :: string
  confidence :: pyfloat
  rationale :: string

record SelectionConfig =
  min_confidence :: pyfloat
  novelty_weight :: pyfloat
  diversity_weight :: pyfloat

definition SelectionConfig_default :: SelectionConfig where
  "SelectionConfig_default =
     \<lparr> min_confidence = fl (4 / 10),
       novelty_weight = fl (3 / 10),
       diversity_weight = fl (2 / 10) \<rparr>"

text \<open>
  \<open>SelectedCandidate\<close>.  Its fifth field, the \<open>rationale\<close> string, is a rendering of
  the numbers the four other fields hold (\<open>confidence=0.90, ...\<close>); it decides nothing
  and is left out, as the logger calls are.
\<close>

record SelectedCandidate =
  candidate :: CandidateStructure
  final_score :: pyfloat
  novelty_bonus :: pyfloat
  diversity_bonus :: pyfloat

definition cosine_similarity :: "pyfloat list \<Rightarrow> pyfloat list \<Rightarrow> pyfloat" where
  "cosine_similarity a b =
     (let dot = fsum (map (\<lambda>(x, y). fmul x y) (zip a b));
          norm_a = fpow_half (fsum (map (\<lambda>x. fmul x x) a));
          norm_b = fpow_half (fsum (map (\<lambda>x. fmul x x) b))
      in if norm_a = 0 \<or> norm_b = 0 then 0
         else fdiv dot (fmul norm_a norm_b))"

text \<open>\<open>candidates.index(cand)\<close>, the first position of an equal element.  The
  selector looks up candidates that it took from the list, so the element is there.\<close>

definition list_index :: "'a list \<Rightarrow> 'a \<Rightarrow> nat" where
  "list_index xs x = length (takeWhile (\<lambda>y. y \<noteq> x) xs)"

text \<open>\<open>max\<close> of a non-empty sequence of floats.\<close>

definition fmax_list :: "pyfloat list \<Rightarrow> pyfloat" where
  "fmax_list xs = foldl max (hd xs) (tl xs)"

text \<open>The novelty bonus of a candidate, the first part of the loop body.  A list or a
  dictionary that is \<open>None\<close> or empty is false.\<close>

definition novelty_of ::
  "CandidateStructure list \<Rightarrow> pyfloat list list option \<Rightarrow> pyfloat list list option
     \<Rightarrow> CandidateStructure \<Rightarrow> pyfloat" where
  "novelty_of candidates corpus_embeddings candidate_embeddings cand =
     (case (corpus_embeddings, candidate_embeddings) of
        (Some (ce # ces), Some (de # des)) \<Rightarrow>
          (let orig_idx = list_index candidates cand in
           if orig_idx < length (de # des)
           then (let cand_emb = (de # des) ! orig_idx;
                     max_sim = fmax_list (map (cosine_similarity cand_emb) (ce # ces));
                     novelty_bonus = fsub 1 max_sim
                 in max 0 (min 1 novelty_bonus))
           else 1)
      | _ \<Rightarrow> 1)"

text \<open>The diversity bonus, the second part of the loop body.\<close>

definition diversity_of :: "(string \<times> pyfloat) list option \<Rightarrow> CandidateStructure \<Rightarrow> pyfloat" where
  "diversity_of type_frequencies cand =
     (case type_frequencies of
        Some (tf # tfs) \<Rightarrow>
          (case map_of (tf # tfs) (structure_type cand) of
             Some freq \<Rightarrow> (let diversity_bonus = fsub 1 freq in max 0 (min 1 diversity_bonus))
           | None \<Rightarrow> 1)
      | _ \<Rightarrow> 1)"

text \<open>\<open>confidence + novelty_weight * novelty_bonus + diversity_weight * diversity_bonus\<close>,
  evaluated from the left.\<close>

definition final_score_of :: "SelectionConfig \<Rightarrow> CandidateStructure \<Rightarrow> pyfloat \<Rightarrow> pyfloat \<Rightarrow> pyfloat" where
  "final_score_of cfg cand novelty diversity =
     fadd (fadd (confidence cand) (fmul (novelty_weight cfg) novelty))
          (fmul (diversity_weight cfg) diversity)"

text \<open>One turn of the loop over the viable candidates: \<open>best\<close> is replaced when it is
  \<open>None\<close> or the new score is strictly greater.\<close>

definition consider_candidate ::
  "SelectionConfig \<Rightarrow> CandidateStructure list \<Rightarrow> pyfloat list list option
     \<Rightarrow> pyfloat list list option \<Rightarrow> (string \<times> pyfloat) list option
     \<Rightarrow> SelectedCandidate option \<Rightarrow> CandidateStructure \<Rightarrow> SelectedCandidate option" where
  "consider_candidate cfg candidates corpus_embeddings candidate_embeddings type_frequencies
       best cand =
     (let novelty = novelty_of candidates corpus_embeddings candidate_embeddings cand;
          diversity = diversity_of type_frequencies cand;
          score = final_score_of cfg cand novelty diversity;
          chosen = \<lparr> candidate = cand, final_score = score,
                     novelty_bonus = novelty, diversity_bonus = diversity \<rparr>
      in (case best of
            None \<Rightarrow> Some chosen
          | Some b \<Rightarrow> if final_score b < score then Some chosen else Some b))"

definition select_candidate ::
  "CandidateStructure list \<Rightarrow> pyfloat list list option \<Rightarrow> pyfloat list list option
     \<Rightarrow> (string \<times> pyfloat) list option \<Rightarrow> SelectionConfig option
     \<Rightarrow> SelectedCandidate option" where
  "select_candidate candidates corpus_embeddings candidate_embeddings type_frequencies cfg_opt =
     (let cfg = (case cfg_opt of None \<Rightarrow> SelectionConfig_default | Some c \<Rightarrow> c) in
      if candidates = [] then None
      else
        (let viable = filter (\<lambda>c. min_confidence cfg \<le> confidence c) candidates in
         if viable = [] then None
         else foldl (consider_candidate cfg candidates corpus_embeddings candidate_embeddings
                       type_frequencies)
                None viable))"

text \<open>A candidate of the selector's test, with the confidence to be chosen.\<close>

definition candidate_with :: "string \<Rightarrow> pyfloat \<Rightarrow> CandidateStructure" where
  "candidate_with tag c =
     \<lparr> bread_top = ''A'', bread_bottom = ''B'', filling = ''C'',
       structure_type = tag, confidence = c, rationale = ''ok'' \<rparr>"

section \<open>Properties of the state machine\<close>

subsection \<open>The two outcomes of a transition\<close>

lemma can_transition_row:
  "can_transition sm event \<Longrightarrow>
     \<exists>row ns. map_of TRANSITIONS (current_state sm) = Some row \<and> map_of row event = Some ns"
  by (cases "current_state sm") (auto simp: can_transition_def transitions_get_def TRANSITIONS_def)

lemma transition_illegal:
  "\<not> can_transition sm event \<Longrightarrow>
     transition sm event payload cid now =
       (Inl (InvalidTransition (InvalidTransitionError_init (current_state sm) event)), sm)"
  by (simp add: transition_def)

text \<open>A legal event never reaches the \<open>KeyError\<close> of the two subscripts.\<close>

lemma transition_legal:
  assumes "can_transition sm event"
  shows "\<exists>ns. map_of (transitions_get (current_state sm)) event = Some ns \<and>
          transition sm event payload cid now =
            (Inr ns,
             sm\<lparr> checkpoints := checkpoints sm @
                   [\<lparr> checkpoint_id = cid, cp_session_id = session_id sm, state = ns,
                      timestamp = now, data = (case payload of None \<Rightarrow> [] | Some d \<Rightarrow> d),
                      transition_reason =
                        state_value (current_state sm) @ '' --['' @ event @ '']--> ''
                        @ state_value ns \<rparr>],
                 current_state := ns \<rparr>)"
proof -
  from can_transition_row [OF assms] obtain row ns where
    r: "map_of TRANSITIONS (current_state sm) = Some row" "map_of row event = Some ns" by blast
  show ?thesis using assms r
    by (simp add: transition_def Let_def transitions_get_def)
qed

lemma session_end_row: "transitions_get SESSION_END = []"
  by (simp add: transitions_get_def TRANSITIONS_def)

subsection \<open>Sessions: the log and the invariant\<close>

lemma init_latest: "latest_agrees (StateMachine_init sid fresh)"
  by (simp add: latest_agrees_def get_latest_checkpoint_def StateMachine_init_def)

lemma perform_latest:
  assumes "perform sm c = (r, sm')" and "latest_agrees sm"
  shows "latest_agrees sm'"
proof (cases c)
  case (Transition e p cid now)
  show ?thesis
  proof (cases "can_transition sm e")
    case True
    from transition_legal [OF True, of p cid now] assms Transition show ?thesis
      by (auto simp: latest_agrees_def get_latest_checkpoint_def)
  next
    case False
    from transition_illegal [OF False, of p cid now] assms Transition show ?thesis by auto
  qed
next
  case (Recover cp)
  with assms show ?thesis
    by (auto simp: latest_agrees_def get_latest_checkpoint_def recover_from_checkpoint_def)
qed

lemma perform_transition_length:
  assumes "perform sm (Transition e p cid now) = (r, sm')"
  shows "length (checkpoints sm') = length (checkpoints sm) + (if isl r then 0 else 1)"
proof (cases "can_transition sm e")
  case True
  from transition_legal [OF True, of p cid now] assms show ?thesis by auto
next
  case False
  from transition_illegal [OF False, of p cid now] assms show ?thesis by auto
qed

lemma run_latest:
  "run sm cs = (rs, sm') \<Longrightarrow> latest_agrees sm \<Longrightarrow> latest_agrees sm'"
proof (induction cs arbitrary: sm rs sm')
  case Nil
  then show ?case by simp
next
  case (Cons c cs)
  obtain r sm1 where p: "perform sm c = (r, sm1)" by (cases "perform sm c")
  obtain rs1 sm2 where q: "run sm1 cs = (rs1, sm2)" by (cases "run sm1 cs")
  from Cons.prems p q have "sm' = sm2" by simp
  with Cons.IH [OF q] perform_latest [OF p] Cons.prems(2) show ?case by simp
qed

lemma run_length:
  "run sm cs = (rs, sm') \<Longrightarrow> \<forall>c \<in> set cs. is_Transition c \<Longrightarrow>
     length (checkpoints sm') = length (checkpoints sm) + succeeded rs"
proof (induction cs arbitrary: sm rs sm')
  case Nil
  then show ?case by (simp add: succeeded_def)
next
  case (Cons c cs)
  obtain r sm1 where p: "perform sm c = (r, sm1)" by (cases "perform sm c")
  obtain rs1 sm2 where q: "run sm1 cs = (rs1, sm2)" by (cases "run sm1 cs")
  from Cons.prems p q have e: "sm' = sm2" "rs = r # rs1" by simp_all
  from Cons.prems(2) obtain ev pl cid now where c: "c = Transition ev pl cid now"
    by (cases c) auto
  from perform_transition_length [of sm ev pl cid now r sm1] p c
  have l: "length (checkpoints sm1) = length (checkpoints sm) + (if isl r then 0 else 1)" by simp
  from Cons.IH [OF q] Cons.prems(2)
  have "length (checkpoints sm2) = length (checkpoints sm1) + succeeded rs1" by simp
  with l e show ?case by (simp add: succeeded_def)
qed

text \<open>
  What a call does depends on the machine through \<open>current_state\<close> and \<open>session_id\<close>
  only: two machines that agree on both answer every call alike, end in agreement, and
  append the same checkpoints.
\<close>

lemma perform_same_core:
  assumes "current_state m1 = current_state m2" "session_id m1 = session_id m2"
      and "perform m1 c = (r1, m1')" "perform m2 c = (r2, m2')"
  shows "r1 = r2 \<and> current_state m1' = current_state m2' \<and> session_id m1' = session_id m2'
         \<and> (\<exists>new. checkpoints m1' = checkpoints m1 @ new \<and> checkpoints m2' = checkpoints m2 @ new)"
proof (cases c)
  case (Transition e p cid now)
  show ?thesis
  proof (cases "can_transition m1 e")
    case True
    with assms(1) have t2: "can_transition m2 e" by (simp add: can_transition_def)
    from transition_legal [OF True, of p cid now] transition_legal [OF t2, of p cid now]
      assms Transition
    show ?thesis by auto
  next
    case False
    with assms(1) have f2: "\<not> can_transition m2 e" by (simp add: can_transition_def)
    from transition_illegal [OF False, of p cid now] transition_illegal [OF f2, of p cid now]
      assms Transition
    show ?thesis by auto
  qed
next
  case (Recover cp)
  with assms show ?thesis by (auto simp: recover_from_checkpoint_def)
qed

lemma run_same_core:
  assumes "current_state m1 = current_state m2" "session_id m1 = session_id m2"
      and "run m1 cs = (rs1, m1')" "run m2 cs = (rs2, m2')"
  shows "rs1 = rs2 \<and> current_state m1' = current_state m2' \<and> session_id m1' = session_id m2'
         \<and> (\<exists>new. checkpoints m1' = checkpoints m1 @ new \<and> checkpoints m2' = checkpoints m2 @ new)"
  using assms
proof (induction cs arbitrary: m1 m2 rs1 rs2 m1' m2')
  case Nil
  then show ?case by simp
next
  case (Cons c cs)
  obtain r1 a1 where p1: "perform m1 c = (r1, a1)" by (cases "perform m1 c")
  obtain r2 a2 where p2: "perform m2 c = (r2, a2)" by (cases "perform m2 c")
  obtain t1 b1 where q1: "run a1 cs = (t1, b1)" by (cases "run a1 cs")
  obtain t2 b2 where q2: "run a2 cs = (t2, b2)" by (cases "run a2 cs")
  from Cons.prems p1 p2 q1 q2
  have e: "m1' = b1" "m2' = b2" "rs1 = r1 # t1" "rs2 = r2 # t2" by simp_all
  from perform_same_core [OF Cons.prems(1,2) p1 p2] obtain n1 where
    s: "r1 = r2" "current_state a1 = current_state a2" "session_id a1 = session_id a2"
       "checkpoints a1 = checkpoints m1 @ n1" "checkpoints a2 = checkpoints m2 @ n1" by blast
  from Cons.IH [OF s(2,3) q1 q2] obtain n2 where
    t: "t1 = t2" "current_state b1 = current_state b2" "session_id b1 = session_id b2"
       "checkpoints b1 = checkpoints a1 @ n2" "checkpoints b2 = checkpoints a2 @ n2" by blast
  from e s t show ?case by simp
qed

subsection \<open>The claims about the state machine\<close>

text \<open>
  Claim C1.  For every state \<open>S\<close> and every event that is not a key of the row of \<open>S\<close>
  in the transition table, \<open>transition\<close> on a machine whose current state is \<open>S\<close> raises
  \<open>InvalidTransitionError\<close>.  The error carries the current state and the attempted
  event as attributes and the legal events of \<open>S\<close>, rendered as a list, in its message;
  the machine, and so its \<open>current_state\<close>, is left as it was.
\<close>

theorem illegal_event_raises:
  assumes "event \<notin> fst ` set (transitions_get (current_state sm))"
  shows "transition sm event payload cid now =
           (Inl (InvalidTransition
                  \<lparr> err_current_state = current_state sm,
                    err_event = event,
                    err_message =
                      ''Invalid transition: '' @ state_value (current_state sm) @ '' + ''
                      @ squote @ event @ squote @ '' (valid events: ''
                      @ repr_str_list (map fst (transitions_get (current_state sm))) @ '')'' \<rparr>),
            sm)"
proof -
  from assms have "\<not> can_transition sm event"
    by (simp add: can_transition_def map_of_eq_None_iff)
  then show ?thesis
    by (simp add: transition_def InvalidTransitionError_init_def)
qed

theorem illegal_event_raises_witness:
  "''stored'' \<notin> fst ` set (transitions_get (current_state (StateMachine_init None 7 :: nat StateMachine)))
   \<and> transition (StateMachine_init None 7 :: nat StateMachine) ''stored'' None 1 2 =
       (Inl (InvalidTransition
              \<lparr> err_current_state = IDLE, err_event = ''stored'',
                err_message = ''Invalid transition: idle + '' @ squote @ ''stored'' @ squote
                   @ '' (valid events: ['' @ squote @ ''start_foraging'' @ squote @ '', ''
                   @ squote @ ''end_session'' @ squote @ ''])'' \<rparr>),
        StateMachine_init None 7)"
proof -
  have h: "''stored'' \<notin> fst ` set (transitions_get (current_state (StateMachine_init None 7 :: nat StateMachine)))"
    by (simp add: StateMachine_init_def transitions_get_def TRANSITIONS_def)
  from illegal_event_raises [OF h, of None 1 2] h show ?thesis
    by (simp add: StateMachine_init_def transitions_get_def TRANSITIONS_def repr_str_list_def
        repr_str_def)
qed

text \<open>
  Claim C2.  Start from a fresh machine and make any sequence of \<open>transition\<close> calls (no
  recovery).  If \<open>N\<close> of them succeed, the checkpoint log has length exactly \<open>N\<close>;
  \<open>get_latest_checkpoint\<close> returns nothing when \<open>N = 0\<close> and otherwise a checkpoint
  whose state is the current state.  (Calls that raise may be interleaved; they do not
  count.)
\<close>

theorem checkpoint_log_counts_transitions:
  assumes "\<forall>c \<in> set cs. is_Transition c"
      and "run (StateMachine_init sid fresh) cs = (rs, sm)"
  shows "length (checkpoints sm) = succeeded rs \<and>
         (case get_latest_checkpoint sm of
            None \<Rightarrow> succeeded rs = 0
          | Some c \<Rightarrow> succeeded rs \<noteq> 0 \<and> state c = current_state sm)"
proof -
  from run_length [OF assms(2,1)] have l: "length (checkpoints sm) = succeeded rs"
    by (simp add: StateMachine_init_def)
  from run_latest [OF assms(2) init_latest] have a: "latest_agrees sm" .
  show ?thesis
  proof (cases "checkpoints sm = []")
    case True
    with l show ?thesis by (simp add: get_latest_checkpoint_def)
  next
    case False
    then have "length (checkpoints sm) \<noteq> 0" by simp
    with l have "succeeded rs \<noteq> 0" by simp
    with l a False show ?thesis by (simp add: get_latest_checkpoint_def latest_agrees_def)
  qed
qed

theorem checkpoint_log_counts_transitions_witness:
  "list_all is_Transition
      [Transition ''start_foraging'' None 1 2,
       Transition ''stored'' (Some [(''k'', 5)]) 3 4,
       Transition ''error'' (Some [(''k'', 5::nat)]) 5 6]
   \<and> run (StateMachine_init None 7)
        [Transition ''start_foraging'' None 1 2,
         Transition ''stored'' (Some [(''k'', 5)]) 3 4,
         Transition ''error'' (Some [(''k'', 5::nat)]) 5 6]
      = ([Inr (Some FORAGING),
          Inl (InvalidTransition (InvalidTransitionError_init FORAGING ''stored'')),
          Inr (Some ERROR_RECOVERY)],
         \<lparr> session_id = 7, current_state = ERROR_RECOVERY,
           checkpoints =
             [\<lparr> checkpoint_id = 1, cp_session_id = 7, state = FORAGING, timestamp = 2,
                data = [], transition_reason = ''idle --[start_foraging]--> foraging'' \<rparr>,
              \<lparr> checkpoint_id = 5, cp_session_id = 7, state = ERROR_RECOVERY, timestamp = 6,
                data = [(''k'', 5)],
                transition_reason = ''foraging --[error]--> error_recovery'' \<rparr>] \<rparr>)
   \<and> succeeded [Inr (Some FORAGING),
          Inl (InvalidTransition (InvalidTransitionError_init FORAGING ''stored'')),
          Inr (Some ERROR_RECOVERY)] = 2"
proof -
  let ?cs = "[Transition ''start_foraging'' None 1 2,
              Transition ''stored'' (Some [(''k'', 5)]) 3 4,
              Transition ''error'' (Some [(''k'', 5::nat)]) 5 6]"
  let ?rs = "[Inr (Some FORAGING),
          Inl (InvalidTransition (InvalidTransitionError_init FORAGING ''stored'')),
          Inr (Some ERROR_RECOVERY)]"
  let ?sm = "\<lparr> session_id = 7, current_state = ERROR_RECOVERY,
           checkpoints =
             [\<lparr> checkpoint_id = 1, cp_session_id = 7, state = FORAGING, timestamp = 2,
                data = [], transition_reason = ''idle --[start_foraging]--> foraging'' \<rparr>,
              \<lparr> checkpoint_id = 5, cp_session_id = 7, state = ERROR_RECOVERY, timestamp = 6,
                data = [(''k'', 5::nat)],
                transition_reason = ''foraging --[error]--> error_recovery'' \<rparr>] \<rparr>"
  have h1: "\<forall>c \<in> set ?cs. is_Transition c" by simp
  have h2: "run (StateMachine_init None 7) ?cs = (?rs, ?sm)"
    by (simp add: StateMachine_init_def transition_def can_transition_def transitions_get_def
        TRANSITIONS_def)
  from checkpoint_log_counts_transitions [OF h1 h2] have "succeeded ?rs = 2" by simp
  with h2 show ?thesis by simp
qed

text \<open>
  Claim C3.  Let a checkpoint be taken (with \<open>get_latest_checkpoint\<close>) from a machine
  that a session has brought to state \<open>X\<close>.  Recovering a fresh machine from it gives
  \<open>current_state = X\<close> and the session identifier of the original machine, and the log
  of the recovered machine is the restored checkpoint alone.  From there on the two
  machines behave alike: any further sequence of calls returns and raises the same on
  both, appends the same checkpoints to both logs, and leaves both in the same state
  and session.
\<close>

theorem recovered_machine_resumes:
  assumes "run (StateMachine_init sid fresh) cs = (rs, m)"
      and "get_latest_checkpoint m = Some c"
      and "run m later = (rs1, m1)"
      and "run (recover_from_checkpoint (StateMachine_init sid' fresh') c) later = (rs2, m2)"
  shows "current_state (recover_from_checkpoint (StateMachine_init sid' fresh') c) = current_state m
       \<and> session_id (recover_from_checkpoint (StateMachine_init sid' fresh') c) = session_id m
       \<and> checkpoints (recover_from_checkpoint (StateMachine_init sid' fresh') c) = [c]
       \<and> rs2 = rs1 \<and> current_state m2 = current_state m1 \<and> session_id m2 = session_id m1
       \<and> (\<exists>new. checkpoints m1 = checkpoints m @ new \<and> checkpoints m2 = [c] @ new)"
proof -
  let ?r = "recover_from_checkpoint (StateMachine_init sid' fresh') c"
  from run_latest [OF assms(1) init_latest] assms(2)
  have a: "state c = current_state m" "cp_session_id c = session_id m"
    by (simp_all add: latest_agrees_def)
  then have s: "current_state ?r = current_state m" and i: "session_id ?r = session_id m"
    by (simp_all add: recover_from_checkpoint_def)
  have l: "checkpoints ?r = [c]"
    by (simp add: recover_from_checkpoint_def StateMachine_init_def)
  from run_same_core [OF s i assms(4,3)] l
  have "rs2 = rs1 \<and> current_state m2 = current_state m1 \<and> session_id m2 = session_id m1
         \<and> (\<exists>new. checkpoints m1 = checkpoints m @ new \<and> checkpoints m2 = [c] @ new)"
    by auto
  with s i l show ?thesis by simp
qed

theorem recovered_machine_resumes_witness:
  "run (StateMachine_init None 7) [Transition ''start_foraging'' (Some [(''topic'', 3::nat)]) 1 2]
     = ([Inr (Some FORAGING)],
        \<lparr> session_id = 7, current_state = FORAGING,
          checkpoints =
            [\<lparr> checkpoint_id = 1, cp_session_id = 7, state = FORAGING, timestamp = 2,
               data = [(''topic'', 3)],
               transition_reason = ''idle --[start_foraging]--> foraging'' \<rparr>] \<rparr>)
   \<and> current_state
        (recover_from_checkpoint (StateMachine_init None 99)
          \<lparr> checkpoint_id = 1, cp_session_id = 7, state = FORAGING, timestamp = 2,
            data = [(''topic'', 3::nat)],
            transition_reason = ''idle --[start_foraging]--> foraging'' \<rparr>) = FORAGING
   \<and> session_id
        (recover_from_checkpoint (StateMachine_init None 99)
          \<lparr> checkpoint_id = 1, cp_session_id = 7, state = FORAGING, timestamp = 2,
            data = [(''topic'', 3::nat)],
            transition_reason = ''idle --[start_foraging]--> foraging'' \<rparr>) = 7
   \<and> fst (run (recover_from_checkpoint (StateMachine_init None 99)
          \<lparr> checkpoint_id = 1, cp_session_id = 7, state = FORAGING, timestamp = 2,
            data = [(''topic'', 3::nat)],
            transition_reason = ''idle --[start_foraging]--> foraging'' \<rparr>)
          [Transition ''content_found'' None 3 4, Transition ''stored'' None 5 6])
      = [Inr (Some PREPROCESSING),
         Inl (InvalidTransition (InvalidTransitionError_init PREPROCESSING ''stored''))]"
proof -
  let ?c = "\<lparr> checkpoint_id = 1, cp_session_id = 7, state = FORAGING, timestamp = 2,
            data = [(''topic'', 3::nat)],
            transition_reason = ''idle --[start_foraging]--> foraging'' \<rparr>"
  let ?m = "\<lparr> session_id = 7, current_state = FORAGING, checkpoints = [?c] \<rparr>"
  let ?later = "[Transition ''content_found'' None 3 4, Transition ''stored'' None 5 6]"
  let ?r = "recover_from_checkpoint (StateMachine_init None 99) ?c"
  have h1: "run (StateMachine_init None 7)
              [Transition ''start_foraging'' (Some [(''topic'', 3::nat)]) 1 2]
            = ([Inr (Some FORAGING)], ?m)"
    by (simp add: StateMachine_init_def transition_def can_transition_def transitions_get_def
        TRANSITIONS_def)
  have h2: "get_latest_checkpoint ?m = Some ?c"
    by (simp add: get_latest_checkpoint_def)
  have h3: "run ?m ?later = (fst (run ?m ?later), snd (run ?m ?later))" by simp
  have h4: "run ?r ?later = (fst (run ?r ?later), snd (run ?r ?later))" by simp
  have v: "fst (run ?m ?later)
      = [Inr (Some PREPROCESSING),
         Inl (InvalidTransition (InvalidTransitionError_init PREPROCESSING ''stored''))]"
    by (simp add: transition_def can_transition_def transitions_get_def TRANSITIONS_def)
  from recovered_machine_resumes [OF h1 h2 h3 h4] v h1 show ?thesis by simp
qed

text \<open>
  Claim C9.  \<open>SESSION_END\<close> is terminal: on a machine whose current state is
  \<open>SESSION_END\<close>, \<open>can_transition\<close> is false for every event and \<open>transition\<close> raises
  \<open>InvalidTransitionError\<close> for every event (and leaves the machine as it was).
\<close>

theorem session_end_is_terminal:
  assumes "current_state sm = SESSION_END"
  shows "\<not> can_transition sm event \<and>
         transition sm event payload cid now =
           (Inl (InvalidTransition (InvalidTransitionError_init SESSION_END event)), sm)"
proof -
  from assms have n: "\<not> can_transition sm event"
    by (simp add: can_transition_def session_end_row)
  from transition_illegal [OF n, of payload cid now] n assms show ?thesis by simp
qed

theorem session_end_is_terminal_witness:
  "current_state \<lparr> session_id = 7, current_state = SESSION_END, checkpoints = [] \<rparr> = SESSION_END
   \<and> \<not> can_transition \<lparr> session_id = 7, current_state = SESSION_END,
                          checkpoints = ([] :: nat StateCheckpoint list) \<rparr> ''start_foraging''
   \<and> fst (transition \<lparr> session_id = 7, current_state = SESSION_END,
                       checkpoints = ([] :: nat StateCheckpoint list) \<rparr> ''end_session'' None 1 2)
      = Inl (InvalidTransition
               \<lparr> err_current_state = SESSION_END, err_event = ''end_session'',
                 err_message = ''Invalid transition: session_end + '' @ squote @ ''end_session''
                    @ squote @ '' (valid events: [])'' \<rparr>)"
proof -
  let ?sm = "\<lparr> session_id = 7, current_state = SESSION_END,
               checkpoints = ([] :: nat StateCheckpoint list) \<rparr>"
  have h: "current_state ?sm = SESSION_END" by simp
  from session_end_is_terminal [OF h, of "''start_foraging''" None 1 2]
       session_end_is_terminal [OF h, of "''end_session''" None 1 2]
  show ?thesis
    by (simp add: InvalidTransitionError_init_def session_end_row repr_str_list_def)
qed

text \<open>
  Claim C10.  A \<open>transition\<close> call that raises appends no checkpoint: the machine
  after the failed call, its checkpoint log included, is the machine before it.
\<close>

theorem failed_transition_changes_nothing:
  assumes "fst (transition sm event payload cid now) = Inl e"
  shows "snd (transition sm event payload cid now) = sm \<and>
         checkpoints (snd (transition sm event payload cid now)) = checkpoints sm"
proof (cases "can_transition sm event")
  case True
  from transition_legal [OF True, of payload cid now] assms show ?thesis by auto
next
  case False
  from transition_illegal [OF False, of payload cid now] show ?thesis by simp
qed

theorem failed_transition_changes_nothing_witness:
  "fst (transition
          \<lparr> session_id = 7, current_state = FORAGING,
            checkpoints =
              [\<lparr> checkpoint_id = 1, cp_session_id = 7, state = FORAGING, timestamp = 2,
                 data = [(''topic'', 3::nat)],
                 transition_reason = ''idle --[start_foraging]--> foraging'' \<rparr>] \<rparr>
          ''stored'' None 3 4)
     = Inl (InvalidTransition (InvalidTransitionError_init FORAGING ''stored''))
   \<and> snd (transition
          \<lparr> session_id = 7, current_state = FORAGING,
            checkpoints =
              [\<lparr> checkpoint_id = 1, cp_session_id = 7, state = FORAGING, timestamp = 2,
                 data = [(''topic'', 3::nat)],
                 transition_reason = ''idle --[start_foraging]--> foraging'' \<rparr>] \<rparr>
          ''stored'' None 3 4)
     = \<lparr> session_id = 7, current_state = FORAGING,
         checkpoints =
           [\<lparr> checkpoint_id = 1, cp_session_id = 7, state = FORAGING, timestamp = 2,
              data = [(''topic'', 3::nat)],
              transition_reason = ''idle --[start_foraging]--> foraging'' \<rparr>] \<rparr>"
proof -
  let ?sm = "\<lparr> session_id = 7, current_state = FORAGING,
            checkpoints =
              [\<lparr> checkpoint_id = 1, cp_session_id = 7, state = FORAGING, timestamp = 2,
                 data = [(''topic'', 3::nat)],
                 transition_reason = ''idle --[start_foraging]--> foraging'' \<rparr>] \<rparr>"
  have h: "fst (transition ?sm ''stored'' None 3 4)
             = Inl (InvalidTransition (InvalidTransitionError_init FORAGING ''stored''))"
    by (simp add: transition_def can_transition_def transitions_get_def TRANSITIONS_def)
  from failed_transition_changes_nothing [OF h] h show ?thesis by simp
qed

section \<open>Properties of the forager\<close>

subsection \<open>Resolving the sources of a tier\<close>


lemma tier_sources_from_nonempty:
  "1 \<le> k \<Longrightarrow> k \<le> t \<Longrightarrow> map_of srcs k = Some (s # ss) \<Longrightarrow> tier_sources_from srcs t \<noteq> []"
proof (induction srcs t rule: tier_sources_from.induct)
  case (1 srcs t)
  then have nt: "\<not> t \<le> 0" by simp
  show ?case
  proof (cases "map_of srcs t")
    case None
    with "1.prems" have "k \<le> t - 1" by (cases "k = t") auto
    from "1.IH"(1) [OF nt None "1.prems"(1) this "1.prems"(3)] nt None show ?thesis by simp
  next
    case (Some l)
    show ?thesis
    proof (cases l)
      case Nil
      with Some "1.prems" have "k \<le> t - 1" by (cases "k = t") auto
      from "1.IH"(2) [OF nt Some Nil "1.prems"(1) this "1.prems"(3)] nt Some Nil show ?thesis by simp
    next
      case (Cons a as)
      with Some nt show ?thesis by simp
    qed
  qed
qed





subsection \<open>Streaks and tiers\<close>

lemma record_success_inv: "forager_inv f \<Longrightarrow> forager_inv (record_success f)"
  by (auto simp: forager_inv_def record_success_def Let_def)

lemma record_failure_inv: "forager_inv f \<Longrightarrow> forager_inv (record_failure f)"
  by (auto simp: forager_inv_def record_failure_def Let_def)

lemma record_success_sources: "sources (record_success f) = sources f"
  by (simp add: record_success_def Let_def)

lemma record_failure_sources: "sources (record_failure f) = sources f"
  by (simp add: record_failure_def Let_def)

lemma record_all_inv: "forager_inv f \<Longrightarrow> forager_inv (record_all f os)"
  unfolding record_all_def
proof (induction os arbitrary: f)
  case Nil
  then show ?case by simp
next
  case (Cons a os)
  from Cons.prems have "forager_inv (record_outcome f a)"
    by (cases a) (simp_all add: record_success_inv record_failure_inv)
  from Cons.IH [OF this] show ?case by simp
qed

lemma record_all_sources: "sources (record_all f os) = sources f"
  unfolding record_all_def
proof (induction os arbitrary: f)
  case Nil
  then show ?case by simp
next
  case (Cons a os)
  have "sources (record_outcome f a) = sources f"
    by (cases a) (simp_all add: record_success_sources record_failure_sources)
  with Cons.IH [of "record_outcome f a"] show ?case by simp
qed

lemma failures_below_threshold:
  assumes "1 < current_tier f" and "consecutive_failures f = 0"
  shows "int j < failures_to_demote (config f) \<Longrightarrow>
           (record_failure ^^ j) f =
             (if j = 0 then f
              else f\<lparr> consecutive_successes := 0, consecutive_failures := int j \<rparr>)"
proof (induction j)
  case 0
  then show ?case by simp
next
  case (Suc j)
  then have "int j < failures_to_demote (config f)" by simp
  from Suc.IH [OF this] Suc.prems assms(2) show ?case
    by (simp add: record_failure_def Let_def)
qed

lemma failures_reach_threshold:
  assumes "1 < current_tier f" and "consecutive_failures f = 0"
      and "1 \<le> failures_to_demote (config f)"
  shows "(record_failure ^^ nat (failures_to_demote (config f))) f =
           f\<lparr> consecutive_successes := 0, current_tier := current_tier f - 1,
               consecutive_failures := 0 \<rparr>"
proof -
  from assms(3) obtain j where j: "nat (failures_to_demote (config f)) = Suc j"
    by (cases "nat (failures_to_demote (config f))") auto
  with assms(3) have k: "failures_to_demote (config f) = int j + 1" by linarith
  then have "int j < failures_to_demote (config f)" by simp
  from failures_below_threshold [OF assms(1,2) this] j k assms(1,2) show ?thesis
    by (simp add: record_failure_def Let_def)
qed

text \<open>
  Claim C7, as the code has it.  Take a forager at tier \<open>T > 1\<close> with no failure streak
  and a threshold \<open>failures_to_demote\<close> of at least 1.  After exactly that many
  \<open>record_failure\<close> calls in a row the tier is \<open>T - 1\<close> and the failure streak is 0.
  After any smaller number \<open>j\<close> of them the tier is still \<open>T\<close> and the streak is \<open>j\<close>; a
  \<open>record_success\<close> at that point resets the failure streak to 0, and leaves the tier
  at \<open>T\<close> unless the success streak it extends reaches \<open>successes_to_promote\<close> while
  \<open>T\<close> is below the highest configured tier, in which case it promotes to \<open>T + 1\<close>.
\<close>

theorem demotion_after_threshold:
  assumes "1 < current_tier f" and "consecutive_failures f = 0"
      and "1 \<le> failures_to_demote (config f)"
  shows "current_tier ((record_failure ^^ nat (failures_to_demote (config f))) f)
           = current_tier f - 1
       \<and> consecutive_failures ((record_failure ^^ nat (failures_to_demote (config f))) f) = 0
       \<and> (\<forall>j. int j < failures_to_demote (config f) \<longrightarrow>
             current_tier ((record_failure ^^ j) f) = current_tier f
           \<and> consecutive_failures ((record_failure ^^ j) f) = int j
           \<and> consecutive_failures (record_success ((record_failure ^^ j) f)) = 0
           \<and> current_tier (record_success ((record_failure ^^ j) f)) =
               (if successes_to_promote (config f)
                     \<le> consecutive_successes ((record_failure ^^ j) f) + 1
                   \<and> current_tier f < max_tier (sources f)
                then current_tier f + 1 else current_tier f))"
proof -
  have "\<And>j. int j < failures_to_demote (config f) \<Longrightarrow>
             current_tier ((record_failure ^^ j) f) = current_tier f
           \<and> consecutive_failures ((record_failure ^^ j) f) = int j
           \<and> consecutive_failures (record_success ((record_failure ^^ j) f)) = 0
           \<and> current_tier (record_success ((record_failure ^^ j) f)) =
               (if successes_to_promote (config f)
                     \<le> consecutive_successes ((record_failure ^^ j) f) + 1
                   \<and> current_tier f < max_tier (sources f)
                then current_tier f + 1 else current_tier f)"
  proof -
    fix j :: nat
    assume "int j < failures_to_demote (config f)"
    from failures_below_threshold [OF assms(1,2) this] assms(2)
    show "current_tier ((record_failure ^^ j) f) = current_tier f
           \<and> consecutive_failures ((record_failure ^^ j) f) = int j
           \<and> consecutive_failures (record_success ((record_failure ^^ j) f)) = 0
           \<and> current_tier (record_success ((record_failure ^^ j) f)) =
               (if successes_to_promote (config f)
                     \<le> consecutive_successes ((record_failure ^^ j) f) + 1
                   \<and> current_tier f < max_tier (sources f)
                then current_tier f + 1 else current_tier f)"
      by (cases "j = 0") (simp_all add: record_success_def Let_def)
  qed
  with failures_reach_threshold [OF assms] show ?thesis by simp
qed

theorem demotion_after_threshold_witness:
  "current_tier ((record_failure ^^ 3) (forager_at_two ForagerConfig_default)) = 1
   \<and> consecutive_failures ((record_failure ^^ 3) (forager_at_two ForagerConfig_default)) = 0
   \<and> current_tier ((record_failure ^^ 2) (forager_at_two ForagerConfig_default)) = 2
   \<and> consecutive_failures ((record_failure ^^ 2) (forager_at_two ForagerConfig_default)) = 2
   \<and> consecutive_failures
        (record_success ((record_failure ^^ 2) (forager_at_two ForagerConfig_default))) = 0
   \<and> current_tier
        (record_success ((record_failure ^^ 2) (forager_at_two ForagerConfig_default))) = 2"
proof -
  let ?f = "forager_at_two ForagerConfig_default"
  have h1: "1 < current_tier ?f" by (simp add: forager_at_two_def)
  have h2: "consecutive_failures ?f = 0" by (simp add: forager_at_two_def Forager_init_def)
  have k: "failures_to_demote (config ?f) = 3"
    by (simp add: forager_at_two_def Forager_init_def ForagerConfig_default_def)
  then have h3: "1 \<le> failures_to_demote (config ?f)" by simp
  have t: "current_tier ?f = 2" by (simp add: forager_at_two_def)
  have p: "successes_to_promote (config ?f) = 5"
    by (simp add: forager_at_two_def Forager_init_def ForagerConfig_default_def)
  have c: "consecutive_successes ((record_failure ^^ 2) ?f) = 0"
    by (simp add: numeral_2_eq_2 record_failure_def Let_def)
  from demotion_after_threshold [OF h1 h2 h3]
  have a: "current_tier ((record_failure ^^ nat 3) ?f) = 2 - 1"
    and b: "consecutive_failures ((record_failure ^^ nat 3) ?f) = 0"
    and d: "\<And>j. int j < 3 \<Longrightarrow>
             current_tier ((record_failure ^^ j) ?f) = 2
           \<and> consecutive_failures ((record_failure ^^ j) ?f) = int j
           \<and> consecutive_failures (record_success ((record_failure ^^ j) ?f)) = 0
           \<and> current_tier (record_success ((record_failure ^^ j) ?f)) =
               (if 5 \<le> consecutive_successes ((record_failure ^^ j) ?f) + 1
                   \<and> 2 < max_tier (sources ?f)
                then 2 + 1 else 2)"
    unfolding k t p by blast+
  have n3: "nat 3 = 3" by simp
  from d [of 2] c a b show ?thesis unfolding n3 by simp
qed

text \<open>
  The claim as stated has the interleaved success never change the tier, and gives the
  threshold no lower bound.  With \<open>successes_to_promote = 1\<close> a forager at tier 2 of
  three, one failure into a threshold of 3, is promoted to tier 3 by the success.  With
  \<open>failures_to_demote = 0\<close> the forager is still at tier 2 after exactly 0 failures.
\<close>

theorem success_before_threshold_counterexample:
  "current_tier (forager_at_two (ForagerConfig_default\<lparr> successes_to_promote := 1 \<rparr>)) = 2
   \<and> consecutive_failures (forager_at_two (ForagerConfig_default\<lparr> successes_to_promote := 1 \<rparr>)) = 0
   \<and> failures_to_demote (config (forager_at_two (ForagerConfig_default\<lparr> successes_to_promote := 1 \<rparr>))) = 3
   \<and> current_tier (record_success (record_failure
         (forager_at_two (ForagerConfig_default\<lparr> successes_to_promote := 1 \<rparr>)))) = 3
   \<and> failures_to_demote (config (forager_at_two (ForagerConfig_default\<lparr> failures_to_demote := 0 \<rparr>))) = 0
   \<and> current_tier ((record_failure ^^ 0)
         (forager_at_two (ForagerConfig_default\<lparr> failures_to_demote := 0 \<rparr>))) = 2"
  by (simp add: forager_at_two_def Forager_init_def ForagerConfig_default_def
      record_success_def record_failure_def max_tier_def three_tiers_def)

text \<open>
  Claim C8, as the code has it.  Whatever sequence of \<open>record_success\<close> and
  \<open>record_failure\<close> calls follows the initial state (tier 1, both streaks 0),
  \<open>current_tier\<close> is at least 1 and at most the greater of 1 and the greatest
  configured tier key, and the two streaks are never both nonzero.  So the tier stays in
  \<open>[1, max(configured tier keys)]\<close> whenever some tier is configured and the greatest
  key is at least 1; with no tier configured it stays at 1.
\<close>

theorem tier_and_streaks_invariant:
  "1 \<le> current_tier (record_all (Forager_init srcs model cfg) os)
   \<and> current_tier (record_all (Forager_init srcs model cfg) os)
        \<le> max 1 (if srcs \<noteq> [] then Max (fst ` set srcs) else 1)
   \<and> \<not> (consecutive_successes (record_all (Forager_init srcs model cfg) os) \<noteq> 0
        \<and> consecutive_failures (record_all (Forager_init srcs model cfg) os) \<noteq> 0)
   \<and> (srcs \<noteq> [] \<and> 1 \<le> Max (fst ` set srcs) \<longrightarrow>
        current_tier (record_all (Forager_init srcs model cfg) os) \<le> Max (fst ` set srcs))
   \<and> (srcs = [] \<longrightarrow> current_tier (record_all (Forager_init srcs model cfg) os) = 1)"
proof -
  let ?f = "Forager_init srcs model cfg"
  have "forager_inv ?f"
    by (simp add: forager_inv_def Forager_init_def)
  from record_all_inv [OF this, of os] have i: "forager_inv (record_all ?f os)" .
  have "sources (record_all ?f os) = srcs"
    by (simp add: record_all_sources Forager_init_def)
  then have "max_tier (sources (record_all ?f os)) = (if srcs \<noteq> [] then Max (fst ` set srcs) else 1)"
    by (simp add: max_tier_def)
  with i have b: "1 \<le> current_tier (record_all ?f os)"
    "current_tier (record_all ?f os) \<le> max 1 (if srcs \<noteq> [] then Max (fst ` set srcs) else 1)"
    "\<not> (consecutive_successes (record_all ?f os) \<noteq> 0
        \<and> consecutive_failures (record_all ?f os) \<noteq> 0)"
    unfolding forager_inv_def by simp_all
  from b(2) have u: "srcs \<noteq> [] \<and> 1 \<le> Max (fst ` set srcs) \<longrightarrow>
        current_tier (record_all ?f os) \<le> Max (fst ` set srcs)" by auto
  from b(1,2) have e: "srcs = [] \<longrightarrow> current_tier (record_all ?f os) = 1" by auto
  from b u e show ?thesis by blast
qed

theorem tier_and_streaks_invariant_witness:
  "three_tiers \<noteq> [] \<and> Max (fst ` set three_tiers) = 3
   \<and> current_tier (record_all (Forager_init three_tiers (\<lambda>topics. ''owls'') None)
        [Success, Success, Success, Success, Success, Failure, Success]) = 2
   \<and> 1 \<le> current_tier (record_all (Forager_init three_tiers (\<lambda>topics. ''owls'') None)
        [Success, Success, Success, Success, Success, Failure, Success])
   \<and> current_tier (record_all (Forager_init three_tiers (\<lambda>topics. ''owls'') None)
        [Success, Success, Success, Success, Success, Failure, Success])
        \<le> Max (fst ` set three_tiers)
   \<and> \<not> (consecutive_successes (record_all (Forager_init three_tiers (\<lambda>topics. ''owls'') None)
        [Success, Success, Success, Success, Success, Failure, Success]) \<noteq> 0
      \<and> consecutive_failures (record_all (Forager_init three_tiers (\<lambda>topics. ''owls'') None)
        [Success, Success, Success, Success, Success, Failure, Success]) \<noteq> 0)
   \<and> current_tier (record_all (Forager_init [] (\<lambda>topics. ''owls'') None)
        [Success, Success, Success, Success, Success, Failure]) = 1"
proof -
  let ?os = "[Success, Success, Success, Success, Success, Failure, Success]"
  let ?ps = "[Success, Success, Success, Success, Success, Failure]"
  have n: "three_tiers \<noteq> []" by (simp add: three_tiers_def)
  have m: "Max (fst ` set three_tiers) = 3" by (simp add: three_tiers_def)
  have v: "current_tier (record_all (Forager_init three_tiers (\<lambda>topics. ''owls'') None) ?os) = 2"
    by (simp add: record_all_def Forager_init_def ForagerConfig_default_def
        record_success_def record_failure_def max_tier_def three_tiers_def)
  note t = tier_and_streaks_invariant [of three_tiers "\<lambda>topics. ''owls''" None ?os]
  note e = tier_and_streaks_invariant [of "[]" "\<lambda>topics. ''owls''" None ?ps]
  from t have t1: "1 \<le> current_tier (record_all (Forager_init three_tiers (\<lambda>topics. ''owls'') None) ?os)"
    and t3: "\<not> (consecutive_successes (record_all (Forager_init three_tiers (\<lambda>topics. ''owls'') None) ?os) \<noteq> 0
      \<and> consecutive_failures (record_all (Forager_init three_tiers (\<lambda>topics. ''owls'') None) ?os) \<noteq> 0)"
    and t4: "three_tiers \<noteq> [] \<and> 1 \<le> Max (fst ` set three_tiers) \<longrightarrow>
        current_tier (record_all (Forager_init three_tiers (\<lambda>topics. ''owls'') None) ?os)
          \<le> Max (fst ` set three_tiers)"
    by blast+
  from t4 n m have t2: "current_tier (record_all (Forager_init three_tiers (\<lambda>topics. ''owls'') None) ?os)
          \<le> Max (fst ` set three_tiers)" by simp
  from e have e1: "current_tier (record_all (Forager_init [] (\<lambda>topics. ''owls'') None) ?ps) = 1"
    by blast
  from n m v t1 t2 t3 e1 show ?thesis by blast
qed

text \<open>
  The claim as stated bounds the tier by the greatest configured key for every mapping.
  The constructor starts every forager at tier 1 whatever the keys are: for a mapping
  whose only tier is 0 the greatest key is 0, and the tier is 1 in the initial state
  and after any calls.
\<close>

theorem tier_bound_counterexample:
  "Max (fst ` set [(0 :: int, [down_source])]) = 0
   \<and> current_tier (record_all (Forager_init [(0, [down_source])] (\<lambda>topics. ''owls'') None) []) = 1
   \<and> \<not> current_tier (record_all (Forager_init [(0, [down_source])] (\<lambda>topics. ''owls'') None) [])
         \<le> Max (fst ` set [(0 :: int, [down_source])])
   \<and> \<not> current_tier (record_all (Forager_init [(0, [down_source])] (\<lambda>topics. ''owls'') None)
           [Success, Failure, Failure, Failure])
         \<le> Max (fst ` set [(0 :: int, [down_source])])"
  by (simp add: record_all_def Forager_init_def ForagerConfig_default_def
      record_success_def record_failure_def max_tier_def)

section \<open>Properties of the error router\<close>

text \<open>
  Claim C5.  For every failure value the router returns \<open>''fatal''\<close> if and only if
  the failure is an instance of the fatal class; every other failure, whether content,
  parse, retryable or of none of the four classes, gives \<open>''recovered''\<close>.
\<close>

theorem fatal_iff_flagged_fatal:
  "(determine_recovery_event e = ''fatal'') = isinstance e FatalError
   \<and> determine_recovery_event e = (if isinstance e FatalError then ''fatal'' else ''recovered'')"
  by (simp add: determine_recovery_event_def)

section \<open>Properties of the float model\<close>

text \<open>The exponent that \<open>binade\<close> finds is the right one, and two roundings that
  binary64 arithmetic is known for.\<close>

lemma pow2_succ: "pow2 (e + 1) = 2 * pow2 e"
proof (cases "0 \<le> e")
  case True
  then show ?thesis by (simp add: pow2_def nat_add_distrib)
next
  case False
  then obtain n where n: "nat (- e) = Suc n" by (cases "nat (- e)") auto
  with False have "nat (- (e + 1)) = n" by linarith
  with n False show ?thesis by (auto simp: pow2_def)
qed

lemma binade_bounds: "0 < x \<Longrightarrow> pow2 (binade x) \<le> x \<and> x < pow2 (binade x + 1)"
proof (induction x rule: binade.induct)
  case (1 x)
  consider "2 \<le> x" | "x < 1" | "1 \<le> x" "x < 2" by linarith
  then show ?case
  proof cases
    case 1
    with "1.prems" have b: "binade x = binade (x / 2) + 1" by (subst binade.simps) simp
    from "1.IH"(1) 1 "1.prems"
    have h: "pow2 (binade (x / 2)) \<le> x / 2 \<and> x / 2 < pow2 (binade (x / 2) + 1)" by simp
    have p1: "pow2 (binade (x / 2) + 1) = 2 * pow2 (binade (x / 2))" by (rule pow2_succ)
    have p2: "pow2 (binade (x / 2) + 1 + 1) = 2 * pow2 (binade (x / 2) + 1)" by (rule pow2_succ)
    from h p1 p2 show ?thesis unfolding b by (intro conjI; linarith)
  next
    case 2
    with "1.prems" have b: "binade x = binade (x * 2) - 1" by (subst binade.simps) simp
    from "1.IH"(2) 2 "1.prems"
    have h: "pow2 (binade (x * 2)) \<le> x * 2 \<and> x * 2 < pow2 (binade (x * 2) + 1)" by simp
    have p1: "pow2 (binade (x * 2) - 1 + 1) = 2 * pow2 (binade (x * 2) - 1)" by (rule pow2_succ)
    have p2: "pow2 (binade (x * 2) + 1) = 2 * pow2 (binade (x * 2))" by (rule pow2_succ)
    have e: "binade (x * 2) - 1 + 1 = binade (x * 2)" by simp
    from h p1 p2 show ?thesis unfolding b e by (intro conjI; linarith)
  next
    case 3
    with "1.prems" have "binade x = 0" by (subst binade.simps) simp
    with 3 show ?thesis by (simp add: pow2_def)
  qed
qed

lemma tenth_plus_fifth: "fadd (fl (1 / 10)) (fl (2 / 10)) = 1351079888211149 / 2 ^ 52"
  by (simp add: fadd_def fl_def binade.simps pow2_def round_half_even_def Let_def)

lemma fl_halfway_to_even: "fl (2 ^ 53 + 1) = 2 ^ 53 \<and> fl (2 ^ 53 + 3) = 2 ^ 53 + 4"
  by (simp add: fl_def binade.simps pow2_def round_half_even_def Let_def)

text \<open>Rounding is monotone: first the rounding of the significand, then powers of
  two, then \<open>fl\<close> on one binade and across binades.\<close>

lemma round_half_even_mono: "a \<le> b \<Longrightarrow> round_half_even a \<le> round_half_even b"
proof -
  assume ab: "a \<le> b"
  have lo: "\<And>m. \<lfloor>m\<rfloor> \<le> round_half_even m" by (simp add: round_half_even_def Let_def)
  have hi: "\<And>m. round_half_even m \<le> \<lfloor>m\<rfloor> + 1" by (simp add: round_half_even_def Let_def)
  from ab have fl: "\<lfloor>a\<rfloor> \<le> \<lfloor>b\<rfloor>" by (rule floor_mono)
  show ?thesis
  proof (cases "\<lfloor>a\<rfloor> = \<lfloor>b\<rfloor>")
    case False
    with fl have "\<lfloor>a\<rfloor> + 1 \<le> \<lfloor>b\<rfloor>" by simp
    with hi [of a] lo [of b] show ?thesis by linarith
  next
    case True
    with ab have "a - of_int \<lfloor>a\<rfloor> \<le> b - of_int \<lfloor>b\<rfloor>" by simp
    with True show ?thesis by (auto simp: round_half_even_def Let_def)
  qed
qed

lemma round_half_even_int: "round_half_even (of_int n) = n"
  by (simp add: round_half_even_def)

lemma pow2_power_int: "pow2 e = 2 powi e"
  by (simp add: pow2_def power_int_def field_simps)

lemma pow2_add: "pow2 (a + b) = pow2 a * pow2 b"
  by (simp add: pow2_power_int power_int_add)

lemma pow2_mono: "a \<le> b \<Longrightarrow> pow2 a \<le> pow2 b"
  by (simp add: pow2_power_int power_int_increasing)

lemma pow2_pos: "0 < pow2 e"
  by (simp add: pow2_def)

lemma binade_mono:
  assumes "0 < x" and "x \<le> y"
  shows "binade x \<le> binade y"
proof (rule ccontr)
  assume "\<not> binade x \<le> binade y"
  then have "binade y + 1 \<le> binade x" by simp
  then have "pow2 (binade y + 1) \<le> pow2 (binade x)" by (rule pow2_mono)
  with binade_bounds [of x] binade_bounds [of y] assms show False by linarith
qed

lemma fl_positive:
  "0 < x \<Longrightarrow>
     fl x = of_int (round_half_even (x / pow2 (binade x - 52))) * pow2 (binade x - 52)"
  by (simp add: fl_def Let_def)

lemma fl_lower:
  assumes "0 < x"
  shows "pow2 (binade x) \<le> fl x"
proof -
  let ?u = "pow2 (binade x - 52)"
  have u: "0 < ?u" by (rule pow2_pos)
  have "52 + (binade x - 52) = binade x" by simp
  with pow2_add [of 52 "binade x - 52"] have "pow2 (binade x) = pow2 52 * ?u" by simp
  moreover have "pow2 52 = 2 ^ 52" by (simp add: pow2_def)
  ultimately have e: "pow2 (binade x) = 2 ^ 52 * ?u" by simp
  from binade_bounds [OF assms] have "2 ^ 52 * ?u \<le> x" unfolding e by simp
  with u have "of_int (2 ^ 52) \<le> x / ?u" by (simp add: pos_le_divide_eq)
  from round_half_even_mono [OF this] have "2 ^ 52 \<le> round_half_even (x / ?u)"
    by (simp only: round_half_even_int)
  then have "(2 ^ 52 :: real) \<le> of_int (round_half_even (x / ?u))"
    by (metis of_int_le_iff of_int_numeral of_int_power)
  with u have "2 ^ 52 * ?u \<le> of_int (round_half_even (x / ?u)) * ?u" by simp
  with e fl_positive [OF assms] show ?thesis by simp
qed

lemma fl_upper:
  assumes "0 < x"
  shows "fl x \<le> pow2 (binade x + 1)"
proof -
  let ?u = "pow2 (binade x - 52)"
  have u: "0 < ?u" by (rule pow2_pos)
  have "53 + (binade x - 52) = binade x + 1" by simp
  with pow2_add [of 53 "binade x - 52"] have "pow2 (binade x + 1) = pow2 53 * ?u" by simp
  moreover have "pow2 53 = 2 ^ 53" by (simp add: pow2_def)
  ultimately have e: "pow2 (binade x + 1) = 2 ^ 53 * ?u" by simp
  from binade_bounds [OF assms] have "x \<le> 2 ^ 53 * ?u" unfolding e by simp
  with u have "x / ?u \<le> of_int (2 ^ 53)" by (simp add: pos_divide_le_eq)
  from round_half_even_mono [OF this] have "round_half_even (x / ?u) \<le> 2 ^ 53"
    by (simp only: round_half_even_int)
  then have "of_int (round_half_even (x / ?u)) \<le> (2 ^ 53 :: real)"
    by (metis of_int_le_iff of_int_numeral of_int_power)
  with u have "of_int (round_half_even (x / ?u)) * ?u \<le> 2 ^ 53 * ?u" by simp
  with e fl_positive [OF assms] show ?thesis by simp
qed

lemma fl_mono_positive:
  assumes "0 < x" and "x \<le> y"
  shows "fl x \<le> fl y"
proof (cases "binade x = binade y")
  case True
  let ?u = "pow2 (binade x - 52)"
  have u: "0 < ?u" by (rule pow2_pos)
  with assms(2) have "x / ?u \<le> y / ?u" by (simp add: divide_right_mono)
  from round_half_even_mono [OF this]
  have "(of_int (round_half_even (x / ?u)) :: real) \<le> of_int (round_half_even (y / ?u))"
    by simp
  with u have "of_int (round_half_even (x / ?u)) * ?u \<le> of_int (round_half_even (y / ?u)) * ?u"
    by simp
  with assms True show ?thesis by (simp add: fl_positive)
next
  case False
  with binade_mono [OF assms] have "binade x + 1 \<le> binade y" by simp
  then have "pow2 (binade x + 1) \<le> pow2 (binade y)" by (rule pow2_mono)
  with fl_upper [OF assms(1)] fl_lower [of y] assms show ?thesis by simp
qed

lemma fl_minus: "fl (- x) = - fl x"
  by (simp add: fl_def Let_def sgn_if)

lemma fl_nonneg: "0 \<le> x \<Longrightarrow> 0 \<le> fl x"
proof (cases "x = 0")
  case True
  then show ?thesis by (simp add: fl_def)
next
  case False
  assume "0 \<le> x"
  with False have p: "0 < x" by simp
  from fl_lower [OF p] pow2_pos [of "binade x"] show ?thesis by linarith
qed

lemma fl_mono: "x \<le> y \<Longrightarrow> fl x \<le> fl y"
proof -
  assume xy: "x \<le> y"
  consider "0 < x" | "x \<le> 0" "0 \<le> y" | "y < 0" by linarith
  then show ?thesis
  proof cases
    case 1
    from 1 xy show ?thesis by (rule fl_mono_positive)
  next
    case 2
    from 2(1) have "0 \<le> fl (- x)" by (intro fl_nonneg) simp
    then have "fl x \<le> 0" by (simp add: fl_minus)
    with fl_nonneg [OF 2(2)] show ?thesis by simp
  next
    case 3
    with xy have "0 < - y" "- y \<le> - x" by simp_all
    from fl_mono_positive [OF this] show ?thesis by (simp add: fl_minus)
  qed
qed

section \<open>Properties of the selector\<close>

subsection \<open>The loop without corpus context\<close>

lemma novelty_without_corpus:
  "corpus_embeddings = None \<or> corpus_embeddings = Some [] \<Longrightarrow>
     novelty_of candidates corpus_embeddings candidate_embeddings cand = 1"
  by (auto simp: novelty_of_def)

lemma diversity_without_frequencies:
  "type_frequencies = None \<or> type_frequencies = Some [] \<Longrightarrow>
     diversity_of type_frequencies cand = 1"
  by (auto simp: diversity_of_def)

lemma consider_without_context:
  assumes "corpus_embeddings = None \<or> corpus_embeddings = Some []"
      and "type_frequencies = None \<or> type_frequencies = Some []"
  shows "consider_candidate cfg candidates corpus_embeddings candidate_embeddings type_frequencies
         = (\<lambda>best c. (case best of
                None \<Rightarrow> Some \<lparr> candidate = c, final_score = final_score_of cfg c 1 1,
                                novelty_bonus = 1, diversity_bonus = 1 \<rparr>
              | Some b \<Rightarrow> if final_score b < final_score_of cfg c 1 1
                          then Some \<lparr> candidate = c, final_score = final_score_of cfg c 1 1,
                                      novelty_bonus = 1, diversity_bonus = 1 \<rparr>
                          else Some b))"
  by (intro ext)
     (simp add: consider_candidate_def Let_def novelty_without_corpus [OF assms(1)]
        diversity_without_frequencies [OF assms(2)])

lemma score_by_confidence:
  "confidence c = confidence d \<Longrightarrow> final_score_of cfg c n v = final_score_of cfg d n v"
  by (simp add: final_score_of_def)

lemma final_score_mono:
  "confidence c \<le> confidence d \<Longrightarrow> final_score_of cfg c n v \<le> final_score_of cfg d n v"
  by (simp add: final_score_of_def fadd_def fl_mono)

text \<open>The loop keeps the first element whose score no other element exceeds.\<close>

lemma first_maximum:
  fixes s :: "'a \<Rightarrow> real" and mk :: "'a \<Rightarrow> 'b" and sc :: "'b \<Rightarrow> real"
  assumes sc: "\<And>c. sc (mk c) = s c"
  defines "step \<equiv> \<lambda>best c. (case best of None \<Rightarrow> Some (mk c)
                               | Some b \<Rightarrow> if sc b < s c then Some (mk c) else Some b)"
  shows "xs \<noteq> [] \<Longrightarrow>
           \<exists>i<length xs. foldl step None xs = Some (mk (xs ! i))
             \<and> (\<forall>j<length xs. s (xs ! j) \<le> s (xs ! i))
             \<and> (\<forall>j<i. s (xs ! j) < s (xs ! i))"
proof (induction xs rule: rev_induct)
  case Nil
  then show ?case by simp
next
  case (snoc x xs)
  show ?case
  proof (cases "xs = []")
    case True
    then show ?thesis by (simp add: step_def)
  next
    case False
    from snoc.IH [OF False] obtain i where i: "i < length xs"
      and f: "foldl step None xs = Some (mk (xs ! i))"
      and m: "\<forall>j<length xs. s (xs ! j) \<le> s (xs ! i)"
      and e: "\<forall>j<i. s (xs ! j) < s (xs ! i)" by blast
    show ?thesis
    proof (cases "s (xs ! i) < s x")
      case True
      with f have "foldl step None (xs @ [x]) = Some (mk ((xs @ [x]) ! length xs))"
        by (simp add: step_def sc)
      moreover have "\<forall>j<length (xs @ [x]). s ((xs @ [x]) ! j) \<le> s ((xs @ [x]) ! length xs)"
      proof (intro allI impI)
        fix j assume "j < length (xs @ [x])"
        then consider "j < length xs" | "j = length xs" by fastforce
        then show "s ((xs @ [x]) ! j) \<le> s ((xs @ [x]) ! length xs)"
        proof cases
          case 1
          with m True show ?thesis by (simp add: nth_append) (meson le_less_trans less_imp_le)
        next
          case 2
          then show ?thesis by simp
        qed
      qed
      moreover have "\<forall>j<length xs. s ((xs @ [x]) ! j) < s ((xs @ [x]) ! length xs)"
      proof (intro allI impI)
        fix j assume j: "j < length xs"
        with m have "s (xs ! j) \<le> s (xs ! i)" by simp
        with True j show "s ((xs @ [x]) ! j) < s ((xs @ [x]) ! length xs)"
          by (simp add: nth_append)
      qed
      ultimately show ?thesis by (intro exI [of _ "length xs"]) simp
    next
      case False
      with f i have "foldl step None (xs @ [x]) = Some (mk ((xs @ [x]) ! i))"
        by (simp add: step_def sc nth_append)
      moreover have "\<forall>j<length (xs @ [x]). s ((xs @ [x]) ! j) \<le> s ((xs @ [x]) ! i)"
      proof (intro allI impI)
        fix j assume "j < length (xs @ [x])"
        then consider "j < length xs" | "j = length xs" by fastforce
        then show "s ((xs @ [x]) ! j) \<le> s ((xs @ [x]) ! i)"
        proof cases
          case 1
          with m i show ?thesis by (simp add: nth_append)
        next
          case 2
          with False i show ?thesis by (simp add: nth_append)
        qed
      qed
      moreover have "\<forall>j<i. s ((xs @ [x]) ! j) < s ((xs @ [x]) ! i)"
        using e i by (simp add: nth_append)
      ultimately show ?thesis using i by (intro exI [of _ i]) simp
    qed
  qed
qed

subsection \<open>The claim about the selector\<close>

text \<open>
  Claim C6, as the code has it.  Let no corpus embeddings and no type frequencies be
  supplied (each is \<open>None\<close> or empty), and let \<open>viable\<close> be the candidates with
  confidence at least \<open>min_confidence\<close>, in input order.  If \<open>viable\<close> is empty the
  result is absent.  Otherwise the selector returns the first viable candidate whose
  final score, \<open>confidence + novelty_weight * 1.0 + diversity_weight * 1.0\<close> in float
  arithmetic, is the greatest: no viable candidate scores higher and every earlier one
  scores strictly lower.  A viable candidate of strictly greater confidence can only
  be one that rounding gives the same final score.  Whenever a strictly greater
  confidence gives a strictly greater final score among the viable candidates, the
  candidate returned has the maximum confidence and every earlier one has a strictly
  smaller confidence.
\<close>

theorem select_without_context:
  assumes "corpus_embeddings = None \<or> corpus_embeddings = Some []"
      and "type_frequencies = None \<or> type_frequencies = Some []"
      and "cfg = (case cfg_opt of None \<Rightarrow> SelectionConfig_default | Some c \<Rightarrow> c)"
      and "viable = filter (\<lambda>c. min_confidence cfg \<le> confidence c) candidates"
  shows "(viable = [] \<longrightarrow>
            select_candidate candidates corpus_embeddings candidate_embeddings
              type_frequencies cfg_opt = None)
       \<and> (viable \<noteq> [] \<longrightarrow>
            (\<exists>i<length viable.
               select_candidate candidates corpus_embeddings candidate_embeddings
                 type_frequencies cfg_opt
               = Some \<lparr> candidate = viable ! i,
                        final_score = final_score_of cfg (viable ! i) 1 1,
                        novelty_bonus = 1, diversity_bonus = 1 \<rparr>
             \<and> (\<forall>j<length viable.
                  final_score_of cfg (viable ! j) 1 1 \<le> final_score_of cfg (viable ! i) 1 1)
             \<and> (\<forall>j<i. final_score_of cfg (viable ! j) 1 1 < final_score_of cfg (viable ! i) 1 1)
             \<and> (\<forall>j<length viable. confidence (viable ! i) < confidence (viable ! j) \<longrightarrow>
                  final_score_of cfg (viable ! j) 1 1 = final_score_of cfg (viable ! i) 1 1)
             \<and> ((\<forall>c\<in>set viable. \<forall>d\<in>set viable. confidence c < confidence d \<longrightarrow>
                    final_score_of cfg c 1 1 < final_score_of cfg d 1 1) \<longrightarrow>
                  (\<forall>j<length viable. confidence (viable ! j) \<le> confidence (viable ! i))
                \<and> (\<forall>j<i. confidence (viable ! j) < confidence (viable ! i)))))"
proof (intro conjI impI)
  assume "viable = []"
  with assms(3,4) show "select_candidate candidates corpus_embeddings candidate_embeddings
              type_frequencies cfg_opt = None"
    by (simp add: select_candidate_def Let_def)
next
  assume ne: "viable \<noteq> []"
  let ?s = "\<lambda>c. final_score_of cfg c 1 1"
  let ?mk = "\<lambda>c. \<lparr> candidate = c, final_score = final_score_of cfg c 1 1,
                    novelty_bonus = 1, diversity_bonus = 1 \<rparr>"
  have "select_candidate candidates corpus_embeddings candidate_embeddings
               type_frequencies cfg_opt
             = (if viable = [] then None
                else foldl (consider_candidate cfg candidates corpus_embeddings
                              candidate_embeddings type_frequencies) None viable)"
    unfolding assms(4) assms(3) select_candidate_def Let_def by auto
  with ne have sel: "select_candidate candidates corpus_embeddings candidate_embeddings
               type_frequencies cfg_opt
             = foldl (\<lambda>best c. (case best of None \<Rightarrow> Some (?mk c)
                        | Some b \<Rightarrow> if final_score b < ?s c then Some (?mk c) else Some b))
                 None viable"
    by (simp add: consider_without_context [OF assms(1,2)])
  have "\<And>c. final_score (?mk c) = ?s c" by simp
  from first_maximum [of final_score ?mk ?s, OF this ne] obtain i where i: "i < length viable"
    and f: "foldl (\<lambda>best c. (case best of None \<Rightarrow> Some (?mk c)
                        | Some b \<Rightarrow> if final_score b < ?s c then Some (?mk c) else Some b))
                 None viable = Some (?mk (viable ! i))"
    and m: "\<forall>j<length viable. ?s (viable ! j) \<le> ?s (viable ! i)"
    and e: "\<forall>j<i. ?s (viable ! j) < ?s (viable ! i)" by blast
  have mono: "(\<forall>c\<in>set viable. \<forall>d\<in>set viable. confidence c < confidence d \<longrightarrow> ?s c < ?s d) \<longrightarrow>
                  (\<forall>j<length viable. confidence (viable ! j) \<le> confidence (viable ! i))
                \<and> (\<forall>j<i. confidence (viable ! j) < confidence (viable ! i))"
  proof (intro impI conjI allI)
    fix j
    assume h: "\<forall>c\<in>set viable. \<forall>d\<in>set viable. confidence c < confidence d \<longrightarrow> ?s c < ?s d"
      and j: "j < length viable"
    show "confidence (viable ! j) \<le> confidence (viable ! i)"
    proof (rule ccontr)
      assume "\<not> confidence (viable ! j) \<le> confidence (viable ! i)"
      then have "confidence (viable ! i) < confidence (viable ! j)" by simp
      with h i j have "?s (viable ! i) < ?s (viable ! j)" by simp
      with m j show False by (simp add: not_less [symmetric])
    qed
  next
    fix j
    assume h: "\<forall>c\<in>set viable. \<forall>d\<in>set viable. confidence c < confidence d \<longrightarrow> ?s c < ?s d"
      and j: "j < i"
    with i have jl: "j < length viable" by simp
    have le: "confidence (viable ! j) \<le> confidence (viable ! i)"
    proof (rule ccontr)
      assume "\<not> confidence (viable ! j) \<le> confidence (viable ! i)"
      then have "confidence (viable ! i) < confidence (viable ! j)" by simp
      with h i jl have "?s (viable ! i) < ?s (viable ! j)" by simp
      with m jl show False by (simp add: not_less [symmetric])
    qed
    have "confidence (viable ! j) \<noteq> confidence (viable ! i)"
    proof
      assume "confidence (viable ! j) = confidence (viable ! i)"
      from score_by_confidence [OF this, of cfg 1 1]
      have "final_score_of cfg (viable ! j) 1 1 = final_score_of cfg (viable ! i) 1 1" .
      moreover from e j
      have "final_score_of cfg (viable ! j) 1 1 < final_score_of cfg (viable ! i) 1 1" by blast
      ultimately show False by linarith
    qed
    with le show "confidence (viable ! j) < confidence (viable ! i)" by simp
  qed
  have tie: "\<forall>j<length viable. confidence (viable ! i) < confidence (viable ! j) \<longrightarrow>
                  ?s (viable ! j) = ?s (viable ! i)"
  proof (intro allI impI)
    fix j
    assume j: "j < length viable" and "confidence (viable ! i) < confidence (viable ! j)"
    then have "confidence (viable ! i) \<le> confidence (viable ! j)" by simp
    from final_score_mono [OF this, of cfg 1 1] m j
    show "?s (viable ! j) = ?s (viable ! i)" by (simp add: order_antisym)
  qed
  from i f m e mono sel tie
  show "\<exists>i<length viable.
               select_candidate candidates corpus_embeddings candidate_embeddings
                 type_frequencies cfg_opt
               = Some \<lparr> candidate = viable ! i,
                        final_score = final_score_of cfg (viable ! i) 1 1,
                        novelty_bonus = 1, diversity_bonus = 1 \<rparr>
             \<and> (\<forall>j<length viable.
                  final_score_of cfg (viable ! j) 1 1 \<le> final_score_of cfg (viable ! i) 1 1)
             \<and> (\<forall>j<i. final_score_of cfg (viable ! j) 1 1 < final_score_of cfg (viable ! i) 1 1)
             \<and> (\<forall>j<length viable. confidence (viable ! i) < confidence (viable ! j) \<longrightarrow>
                  final_score_of cfg (viable ! j) 1 1 = final_score_of cfg (viable ! i) 1 1)
             \<and> ((\<forall>c\<in>set viable. \<forall>d\<in>set viable. confidence c < confidence d \<longrightarrow>
                    final_score_of cfg c 1 1 < final_score_of cfg d 1 1) \<longrightarrow>
                  (\<forall>j<length viable. confidence (viable ! j) \<le> confidence (viable ! i))
                \<and> (\<forall>j<i. confidence (viable ! j) < confidence (viable ! i)))"
    by (intro exI [of _ i]) simp
qed

text \<open>
  The scenario of the claim: for confidences \<open>0.6\<close>, \<open>0.9\<close>, \<open>0.7\<close> and no context, the
  \<open>0.9\<close> candidate is returned, with final score \<open>1.4\<close>; and when no candidate meets
  \<open>min_confidence\<close> the result is \<open>None\<close>.
\<close>

theorem select_without_context_witness:
  "select_candidate
     [candidate_with ''bound'' (fl (6 / 10)), candidate_with ''temporal'' (fl (9 / 10)),
      candidate_with ''dialectic'' (fl (7 / 10))]
     None None None None
   = Some \<lparr> candidate = candidate_with ''temporal'' (fl (9 / 10)),
            final_score = final_score_of SelectionConfig_default
                            (candidate_with ''temporal'' (fl (9 / 10))) 1 1,
            novelty_bonus = 1, diversity_bonus = 1 \<rparr>
   \<and> final_score_of SelectionConfig_default (candidate_with ''temporal'' (fl (9 / 10))) 1 1
       = 3152519739159347 / 2251799813685248
   \<and> select_candidate
       [candidate_with ''bound'' (fl (2 / 10)), candidate_with ''temporal'' (fl (3 / 10))]
       (Some []) None (Some []) (Some (SelectionConfig_default\<lparr> min_confidence := 1 / 2 \<rparr>))
     = None"
proof -
  let ?cs = "[candidate_with ''bound'' (fl (6 / 10)), candidate_with ''temporal'' (fl (9 / 10)),
      candidate_with ''dialectic'' (fl (7 / 10))]"
  let ?ds = "[candidate_with ''bound'' (fl (2 / 10)), candidate_with ''temporal'' (fl (3 / 10))]"
  let ?cfg = "SelectionConfig_default\<lparr> min_confidence := 1 / 2 \<rparr>"
  have n: "(None :: pyfloat list list option) = None \<or> (None :: pyfloat list list option) = Some []"
    by simp
  have t: "(None :: (string \<times> pyfloat) list option) = None
             \<or> (None :: (string \<times> pyfloat) list option) = Some []" by simp
  have c: "SelectionConfig_default = (case None of None \<Rightarrow> SelectionConfig_default | Some c \<Rightarrow> c)"
    by simp
  have v: "?cs = filter (\<lambda>c. min_confidence SelectionConfig_default \<le> confidence c) ?cs"
    by (simp add: SelectionConfig_default_def candidate_with_def fl_def binade.simps pow2_def
        round_half_even_def Let_def)
  have s: "final_score_of SelectionConfig_default (candidate_with ''bound'' (fl (6 / 10))) 1 1
             < final_score_of SelectionConfig_default (candidate_with ''temporal'' (fl (9 / 10))) 1 1"
          "final_score_of SelectionConfig_default (candidate_with ''dialectic'' (fl (7 / 10))) 1 1
             < final_score_of SelectionConfig_default (candidate_with ''temporal'' (fl (9 / 10))) 1 1"
          "final_score_of SelectionConfig_default (candidate_with ''temporal'' (fl (9 / 10))) 1 1
             = 3152519739159347 / 2251799813685248"
    by (simp_all add: final_score_of_def fadd_def fmul_def SelectionConfig_default_def
        candidate_with_def fl_def binade.simps pow2_def round_half_even_def Let_def)
  have ne: "?cs \<noteq> []" by simp
  note th = select_without_context [OF n t c v, of None, THEN conjunct2, rule_format, OF ne]
  from th obtain i where i: "i < length ?cs"
    and r: "select_candidate ?cs None None None None
            = Some \<lparr> candidate = ?cs ! i,
                     final_score = final_score_of SelectionConfig_default (?cs ! i) 1 1,
                     novelty_bonus = 1, diversity_bonus = 1 \<rparr>"
    and m: "\<forall>j<length ?cs. final_score_of SelectionConfig_default (?cs ! j) 1 1
               \<le> final_score_of SelectionConfig_default (?cs ! i) 1 1"
    by blast
  from i consider "i = 0" | "i = 1" | "i = 2" by fastforce
  then have "i = 1"
  proof cases
    case 1
    with m [rule_format, of 1] s show ?thesis by simp
  next
    case 2
    then show ?thesis .
  next
    case 3
    with m [rule_format, of 1] s show ?thesis by simp
  qed
  with r have a: "select_candidate ?cs None None None None
            = Some \<lparr> candidate = candidate_with ''temporal'' (fl (9 / 10)),
                     final_score = final_score_of SelectionConfig_default
                            (candidate_with ''temporal'' (fl (9 / 10))) 1 1,
                     novelty_bonus = 1, diversity_bonus = 1 \<rparr>" by simp
  have n': "(Some [] :: pyfloat list list option) = None \<or> (Some [] :: pyfloat list list option) = Some []"
    by simp
  have t': "(Some [] :: (string \<times> pyfloat) list option) = None
             \<or> (Some [] :: (string \<times> pyfloat) list option) = Some []" by simp
  have c': "?cfg = (case Some ?cfg of None \<Rightarrow> SelectionConfig_default | Some c \<Rightarrow> c)" by simp
  have v': "[] = filter (\<lambda>c. min_confidence ?cfg \<le> confidence c) ?ds"
    by (simp add: SelectionConfig_default_def candidate_with_def fl_def binade.simps pow2_def
        round_half_even_def Let_def)
  from select_without_context [OF n' t' c' v', of None]
  have b: "select_candidate ?ds (Some []) None (Some []) (Some ?cfg) = None" by simp
  from a b s(3) show ?thesis by simp
qed

text \<open>
  The claim as stated has the selector return the candidate of maximum confidence.
  Rounding can give two different confidences the same final score, and then the first
  one is kept: with the default configuration, \<open>0.5\<close> and the next binary64 number
  \<open>0.5000000000000001\<close> both score exactly \<open>1.0\<close>, and the selector returns the
  \<open>0.5\<close> candidate although the other has the greater confidence.
\<close>

theorem select_by_confidence_counterexample:
  "fl (1 / 2) = 1 / 2
   \<and> fl (1 / 2 + 1 / 2 ^ 53) = 1 / 2 + 1 / 2 ^ 53
   \<and> min_confidence SelectionConfig_default \<le> confidence (candidate_with ''bound'' (1 / 2))
   \<and> confidence (candidate_with ''bound'' (1 / 2))
        < confidence (candidate_with ''temporal'' (1 / 2 + 1 / 2 ^ 53))
   \<and> select_candidate
        [candidate_with ''bound'' (1 / 2), candidate_with ''temporal'' (1 / 2 + 1 / 2 ^ 53)]
        None None None None
      = Some \<lparr> candidate = candidate_with ''bound'' (1 / 2), final_score = 1,
               novelty_bonus = 1, diversity_bonus = 1 \<rparr>"
  by (simp add: select_candidate_def consider_candidate_def novelty_of_def diversity_of_def
      final_score_of_def fadd_def fmul_def SelectionConfig_default_def candidate_with_def
      fl_def binade.simps pow2_def round_half_even_def Let_def)

end
